theory Spec2Isabelle
  imports Main
begin

section \<open>Identifiers, time and errors\<close>

text \<open>
  Object ids are the strings the services receive (\<open>toString()\<close> of an ObjectId), dates
  are milliseconds on the clock. The clock (\<open>new Date()\<close>) and the id of a document
  about to be inserted are arguments of the operations that read them.

  \<open>AppError\<close> carries a message and an HTTP status code. The messages of the source are
  Chinese text; each throw site is named here by a constructor of \<open>message\<close>.
  \<open>ValidationError\<close> is the error Mongoose throws when a document or an update
  fails the validators of its schema; \<open>InternalFailure\<close> stands for every other
  exception that is not an \<open>AppError\<close> (a rejected write of the driver, a runtime
  TypeError).
\<close>

type_synonym oid = string
type_synonym date = int

datatype message =
    PostNotFound | UserNotFound | ParentCommentNotFound | CommentNotFound
  | NoPermissionEditComment | NoPermissionDeleteComment
  | AuthorNotFound | CategoryNotFound | SomeTagsMissing
  | OnlyAuthorUpdate | OnlyAuthorPublish | AlreadyPublished
  | OnlyAuthorChangeStatus | OnlyAuthorSchedule | ScheduleDateMustBeFuture
  | AlreadyLiked | NotLikedYet
  | CategoryNameExists | CategorySlugExists | SelfParent
  | ParentCategoryNotFound | CyclicParent
  | UserOrPostNotFound | UserOrCommentNotFound

datatype error = AppError message nat | ValidationError | InternalFailure

text \<open>JavaScript truthiness of an optional string: absent and empty are both false.\<close>

definition truthy :: "string option \<Rightarrow> bool" where
  "truthy s = (case s of None \<Rightarrow> False | Some x \<Rightarrow> x \<noteq> [])"

text \<open>
  Text is a list of UTF-16 code units, of which the model has those below 256.
  \<open>jsTrim\<close> is \<open>String.prototype.trim\<close>, which a schema path with \<open>trim: true\<close> applies
  to every value set: it removes white space at both ends, in this range tab, line feed,
  vertical tab, form feed, carriage return, space and the no-break space.
\<close>

definition isSpace :: "char \<Rightarrow> bool" where
  "isSpace c = (c = CHR 0x09 \<or> c = CHR 0x0A \<or> c = CHR 0x0B \<or> c = CHR 0x0C \<or> c = CHR 0x0D
                \<or> c = CHR 0x20 \<or> c = CHR 0xA0)"

definition jsTrim :: "string \<Rightarrow> string" where
  "jsTrim s = rev (dropWhile isSpace (rev (dropWhile isSpace s)))"

section \<open>Documents\<close>

datatype PostStatus = DRAFT | PUBLISHED | SCHEDULED

text \<open>
  The Post schema, without \<open>summary\<close>, \<open>slug\<close>, \<open>featuredImage\<close> and the two
  timestamps. What ends up stored in \<open>slug\<close> and in a missing \<open>summary\<close> is computed by
  the save hook with regular expressions over Unicode text (for a new post the hook
  overwrites the slug of the caller with one made from the title), and no operation below
  reads them. What the caller supplies for them is validated before the hook runs; that
  is part of \<open>createPost\<close> and \<open>updatePost\<close> below.
\<close>

record Post =
  post_id :: oid
  post_title :: string
  post_content :: string
  post_author :: oid
  post_category :: oid
  post_tags :: "oid list"
  post_status :: PostStatus
  post_publishDate :: "date option"
  post_viewCount :: int
  post_likeCount :: int
  post_commentCount :: int
  post_likes :: "oid list"

text \<open>
  The Comment schema, without \<open>updatedAt\<close>. The validators of \<open>content\<close>
  (\<open>required\<close>, \<open>trim\<close>, \<open>maxlength: 2000\<close>) are \<open>validCommentContent\<close> below.
\<close>

record Comment =
  comment_id :: oid
  comment_content :: string
  comment_post :: oid
  comment_author :: oid
  comment_parentComment :: "oid option"
  comment_level :: int
  comment_path :: string
  comment_likes :: "oid list"
  comment_likeCount :: int
  comment_isEdited :: bool
  comment_isApproved :: bool
  comment_isHighlighted :: bool
  comment_isDeleted :: bool
  comment_deletedAt :: "date option"
  comment_createdAt :: date

record Category =
  cat_id :: oid
  cat_name :: string
  cat_slug :: string
  cat_description :: string
  cat_parentCategory :: "oid option"
  cat_order :: int

datatype NotificationType = FOLLOW | COMMENT | REPLY | LIKE_POST | LIKE_COMMENT | MENTION | SYSTEM

record Notification =
  notif_recipient :: oid
  notif_sender :: "oid option"
  notif_type :: NotificationType
  notif_relatedPost :: "oid option"
  notif_relatedComment :: "oid option"
  notif_isRead :: bool

text \<open>
  The database: one list of documents per collection, in insertion order. Of a user
  only the existence is read by the operations below, of a tag likewise.
\<close>

record db =
  db_users :: "oid list"
  db_tags :: "oid list"
  db_categories :: "Category list"
  db_posts :: "Post list"
  db_comments :: "Comment list"
  db_notifications :: "Notification list"

section \<open>Queries and writes of the models\<close>

definition userExists :: "db \<Rightarrow> oid \<Rightarrow> bool" where
  "userExists d u = (u \<in> set (db_users d))"

definition findPostById :: "db \<Rightarrow> oid \<Rightarrow> Post option" where
  "findPostById d i = find (\<lambda>p. post_id p = i) (db_posts d)"

text \<open>
  \<open>CommentSchema.pre('find')\<close> and \<open>pre('findOne')\<close> add \<open>isDeleted: false\<close> to every
  \<open>find\<close>, \<open>findOne\<close> and \<open>findById\<close> on comments. \<open>countDocuments\<close> has no such hook.
\<close>

definition findComments :: "db \<Rightarrow> (Comment \<Rightarrow> bool) \<Rightarrow> Comment list" where
  "findComments d q = filter (\<lambda>c. q c \<and> \<not> comment_isDeleted c) (db_comments d)"

definition findCommentById :: "db \<Rightarrow> oid \<Rightarrow> Comment option" where
  "findCommentById d i = find (\<lambda>c. comment_id c = i \<and> \<not> comment_isDeleted c) (db_comments d)"

definition countComments :: "db \<Rightarrow> (Comment \<Rightarrow> bool) \<Rightarrow> nat" where
  "countComments d q = length (filter q (db_comments d))"

definition findCategoryById :: "Category list \<Rightarrow> oid \<Rightarrow> Category option" where
  "findCategoryById cs i = find (\<lambda>c. cat_id c = i) cs"

text \<open>\<open>Post.findByIdAndUpdate(id, { $inc: { commentCount: k } })\<close>.\<close>

definition incCommentCount :: "oid \<Rightarrow> int \<Rightarrow> db \<Rightarrow> db" where
  "incCommentCount pid k d =
     d\<lparr>db_posts := map (\<lambda>p. if post_id p = pid
                              then p\<lparr>post_commentCount := post_commentCount p + k\<rparr> else p)
                       (db_posts d)\<rparr>"

text \<open>\<open>save()\<close> of a comment that is already stored: the document with its id is replaced.\<close>

definition saveComment :: "Comment \<Rightarrow> db \<Rightarrow> db" where
  "saveComment c d =
     d\<lparr>db_comments := map (\<lambda>x. if comment_id x = comment_id c then c else x) (db_comments d)\<rparr>"

text \<open>
  \<open>PostSchema.pre('save')\<close>, the part that touches modelled fields: a published post
  without a publish date gets the current time. \<open>savePost\<close> is \<open>save()\<close> of a stored
  post. The operations that save a stored post or comment change no validated text
  except the content in \<open>updateComment\<close>, which is validated there; stored documents are
  taken to be valid as they were when written. The unique index on \<open>slug\<close> is not built
  by the application (\<open>autoIndex\<close> is off) and is not modelled.
\<close>

definition postPreSave :: "date \<Rightarrow> Post \<Rightarrow> Post" where
  "postPreSave now p =
     (if post_status p = PUBLISHED \<and> post_publishDate p = None
      then p\<lparr>post_publishDate := Some now\<rparr> else p)"

definition savePost :: "date \<Rightarrow> Post \<Rightarrow> db \<Rightarrow> db" where
  "savePost now p d =
     d\<lparr>db_posts := map (\<lambda>x. if post_id x = post_id p then postPreSave now p else x) (db_posts d)\<rparr>"

section \<open>NotificationService\<close>

text \<open>
  Each creator looks up the documents it mentions, fails with 404 when one is missing and
  then calls \<open>Notification.create\<close>. The flag \<open>ok\<close> says whether that write is accepted.
  The result is the error thrown, or the database with the notification stored.
\<close>

definition createCommentNotification ::
  "bool \<Rightarrow> oid \<Rightarrow> oid \<Rightarrow> oid \<Rightarrow> oid \<Rightarrow> db \<Rightarrow> error + db" where
  "createCommentNotification ok postId commentId commenterId postAuthorId d =
     (if \<not> userExists d commenterId \<or> findPostById d postId = None
      then Inl (AppError UserOrPostNotFound 404)
      else if \<not> ok then Inl InternalFailure
      else Inr (d\<lparr>db_notifications := db_notifications d @
             [\<lparr>notif_recipient = postAuthorId, notif_sender = Some commenterId,
               notif_type = COMMENT, notif_relatedPost = Some postId,
               notif_relatedComment = Some commentId, notif_isRead = False\<rparr>]\<rparr>))"

definition createReplyNotification ::
  "bool \<Rightarrow> oid \<Rightarrow> oid \<Rightarrow> oid \<Rightarrow> oid \<Rightarrow> db \<Rightarrow> error + db" where
  "createReplyNotification ok postId commentId replyerId recipientId d =
     (if \<not> userExists d replyerId \<or> findPostById d postId = None
      then Inl (AppError UserOrPostNotFound 404)
      else if \<not> ok then Inl InternalFailure
      else Inr (d\<lparr>db_notifications := db_notifications d @
             [\<lparr>notif_recipient = recipientId, notif_sender = Some replyerId,
               notif_type = REPLY, notif_relatedPost = Some postId,
               notif_relatedComment = Some commentId, notif_isRead = False\<rparr>]\<rparr>))"

text \<open>
  \<open>createLikeCommentNotification\<close> populates the comment's post and reads \<open>post._id\<close>;
  when the post is gone that read is a TypeError.
\<close>

definition createLikeCommentNotification ::
  "bool \<Rightarrow> oid \<Rightarrow> oid \<Rightarrow> oid \<Rightarrow> db \<Rightarrow> error + db" where
  "createLikeCommentNotification ok commentId likerId authorId d =
     (case findCommentById d commentId of
        None \<Rightarrow> Inl (AppError UserOrCommentNotFound 404)
      | Some comment \<Rightarrow>
          if \<not> userExists d likerId then Inl (AppError UserOrCommentNotFound 404)
          else (case findPostById d (comment_post comment) of
                  None \<Rightarrow> Inl InternalFailure
                | Some post \<Rightarrow>
                    if \<not> ok then Inl InternalFailure
                    else Inr (d\<lparr>db_notifications := db_notifications d @
                           [\<lparr>notif_recipient = authorId, notif_sender = Some likerId,
                             notif_type = LIKE_COMMENT, notif_relatedPost = Some (post_id post),
                             notif_relatedComment = Some commentId, notif_isRead = False\<rparr>]\<rparr>)))"

text \<open>\<open>try { ... } catch { logger.error(...) }\<close>: a failed notification leaves the state as it is.\<close>

definition swallow :: "error + db \<Rightarrow> db \<Rightarrow> db" where
  "swallow r d = (case r of Inl e \<Rightarrow> d | Inr d' \<Rightarrow> d')"

section \<open>CommentService\<close>

record CreateCommentDTO =
  dto_content :: string
  dto_postId :: oid
  dto_authorId :: oid
  dto_parentCommentId :: "oid option"

text \<open>
  Validation of a comment's content, as \<open>Comment.create\<close> and \<open>save\<close> run it before
  any save hook: the trimmed content is not empty and has at most 2000 code units.
\<close>

definition validCommentContent :: "string \<Rightarrow> bool" where
  "validCommentContent content = (jsTrim content \<noteq> [] \<and> length (jsTrim content) \<le> 2000)"

text \<open>
  The document \<open>Comment.create\<close> builds from \<open>commentData\<close> and the schema defaults;
  the content is stored trimmed.
\<close>

definition newComment :: "oid \<Rightarrow> date \<Rightarrow> string \<Rightarrow> oid \<Rightarrow> oid \<Rightarrow> oid option \<Rightarrow> Comment" where
  "newComment newId now content postId authorId parent =
     \<lparr>comment_id = newId, comment_content = jsTrim content, comment_post = postId,
      comment_author = authorId, comment_parentComment = parent,
      comment_level = 1, comment_path = [], comment_likes = [], comment_likeCount = 0,
      comment_isEdited = False, comment_isApproved = True, comment_isHighlighted = False,
      comment_isDeleted = False, comment_deletedAt = None, comment_createdAt = now\<rparr>"

text \<open>
  \<open>CommentSchema.pre('save')\<close> for a new document: a reply whose parent is found takes
  the parent's level plus one and the parent's path followed by the parent's id, and the
  post's counter is incremented; a reply whose parent is not found is stored as it is,
  with no increment; a top-level comment gets the empty path and the increment.
\<close>

definition commentPreSaveNew :: "Comment \<Rightarrow> db \<Rightarrow> Comment \<times> db" where
  "commentPreSaveNew c d =
     (case comment_parentComment c of
        Some pid \<Rightarrow>
          (case findCommentById d pid of
             Some parentComment \<Rightarrow>
               (c\<lparr>comment_level := comment_level parentComment + 1,
                  comment_path := (if comment_path parentComment \<noteq> []
                                   then comment_path parentComment @ ''/'' @ pid
                                   else pid)\<rparr>,
                incCommentCount (comment_post c) 1 d)
           | None \<Rightarrow> (c, d))
      | None \<Rightarrow> (c\<lparr>comment_path := []\<rparr>, incCommentCount (comment_post c) 1 d))"

text \<open>The notifications \<open>createComment\<close> sends, inside its inner \<open>try\<close>.\<close>

definition commentNotifications :: "bool \<Rightarrow> Post \<Rightarrow> oid \<Rightarrow> CreateCommentDTO \<Rightarrow> db \<Rightarrow> error + db" where
  "commentNotifications ok post newId data d =
     (case (if post_author post \<noteq> dto_authorId data \<and> \<not> truthy (dto_parentCommentId data)
            then createCommentNotification ok (dto_postId data) newId (dto_authorId data)
                   (post_author post) d
            else Inr d) of
        Inl e \<Rightarrow> Inl e
      | Inr d1 \<Rightarrow>
          if truthy (dto_parentCommentId data)
          then (case findCommentById d1 (the (dto_parentCommentId data)) of
                  None \<Rightarrow> Inr d1
                | Some parentComment \<Rightarrow>
                    if userExists d1 (comment_author parentComment)
                       \<and> comment_author parentComment \<noteq> dto_authorId data
                    then createReplyNotification ok (dto_postId data) newId (dto_authorId data)
                           (comment_author parentComment) d1
                    else Inr d1)
          else Inr d1)"

text \<open>
  \<open>createComment\<close>. \<open>Comment.create\<close> validates the document first and throws when
  the content is not valid; the save hook and the insert come after. The value returned
  is the document just inserted (\<open>findById\<close> of its own id, with the author populated).
\<close>

definition createComment ::
  "bool \<Rightarrow> date \<Rightarrow> oid \<Rightarrow> CreateCommentDTO \<Rightarrow> db \<Rightarrow> (error + Comment) \<times> db" where
  "createComment ok now newId data d =
     (case findPostById d (dto_postId data) of
        None \<Rightarrow> (Inl (AppError PostNotFound 404), d)
      | Some post \<Rightarrow>
          if \<not> userExists d (dto_authorId data) then (Inl (AppError UserNotFound 404), d)
          else if truthy (dto_parentCommentId data)
                  \<and> findCommentById d (the (dto_parentCommentId data)) = None
          then (Inl (AppError ParentCommentNotFound 404), d)
          else if \<not> validCommentContent (dto_content data) then (Inl ValidationError, d)
          else
            (let commentData = newComment newId now (dto_content data) (dto_postId data)
                                 (dto_authorId data)
                                 (if truthy (dto_parentCommentId data)
                                  then dto_parentCommentId data else None);
                 (comment, d1) = commentPreSaveNew commentData d;
                 d2 = d1\<lparr>db_comments := db_comments d1 @ [comment]\<rparr>;
                 d3 = swallow (commentNotifications ok post newId data d2) d2
             in (Inr comment, d3)))"

definition updateComment :: "oid \<Rightarrow> oid \<Rightarrow> string \<Rightarrow> db \<Rightarrow> (error + Comment) \<times> db" where
  "updateComment commentId authorId content d =
     (case findCommentById d commentId of
        None \<Rightarrow> (Inl (AppError CommentNotFound 404), d)
      | Some comment \<Rightarrow>
          if comment_author comment \<noteq> authorId
          then (Inl (AppError NoPermissionEditComment 403), d)
          else if \<not> validCommentContent content then (Inl ValidationError, d)
          else (let c = comment\<lparr>comment_content := jsTrim content, comment_isEdited := True\<rparr>
                in (Inr c, saveComment c d)))"

definition deleteComment :: "date \<Rightarrow> oid \<Rightarrow> oid \<Rightarrow> bool \<Rightarrow> db \<Rightarrow> (error + unit) \<times> db" where
  "deleteComment now commentId userId isAdmin d =
     (case findCommentById d commentId of
        None \<Rightarrow> (Inl (AppError CommentNotFound 404), d)
      | Some comment \<Rightarrow>
          if comment_author comment \<noteq> userId \<and> \<not> isAdmin
          then (Inl (AppError NoPermissionDeleteComment 403), d)
          else (let c = comment\<lparr>comment_isDeleted := True, comment_deletedAt := Some now\<rparr>
                in (Inr (), incCommentCount (comment_post c) (- 1) (saveComment c d))))"

definition likeComment :: "bool \<Rightarrow> oid \<Rightarrow> oid \<Rightarrow> db \<Rightarrow> (error + Comment) \<times> db" where
  "likeComment ok commentId userId d =
     (case findCommentById d commentId of
        None \<Rightarrow> (Inl (AppError CommentNotFound 404), d)
      | Some comment \<Rightarrow>
          if userId \<in> set (comment_likes comment) then (Inr comment, d)
          else (let c = comment\<lparr>comment_likes := comment_likes comment @ [userId],
                                comment_likeCount := int (length (comment_likes comment @ [userId]))\<rparr>;
                    d1 = saveComment c d;
                    d2 = (if comment_author c \<noteq> userId
                          then swallow (createLikeCommentNotification ok commentId userId
                                          (comment_author c) d1) d1
                          else d1)
                in (Inr c, d2)))"

definition unlikeComment :: "oid \<Rightarrow> oid \<Rightarrow> db \<Rightarrow> (error + Comment) \<times> db" where
  "unlikeComment commentId userId d =
     (case findCommentById d commentId of
        None \<Rightarrow> (Inl (AppError CommentNotFound 404), d)
      | Some comment \<Rightarrow>
          (let ls = filter (\<lambda>i. i \<noteq> userId) (comment_likes comment);
               c = comment\<lparr>comment_likes := ls, comment_likeCount := int (length ls)\<rparr>
           in (Inr c, saveComment c d)))"

definition moderateComment :: "oid \<Rightarrow> bool \<Rightarrow> db \<Rightarrow> (error + Comment) \<times> db" where
  "moderateComment commentId isApproved d =
     (case findCommentById d commentId of
        None \<Rightarrow> (Inl (AppError CommentNotFound 404), d)
      | Some comment \<Rightarrow>
          (let c = comment\<lparr>comment_isApproved := isApproved\<rparr>;
               d1 = saveComment c d
           in (Inr c, if isApproved then incCommentCount (comment_post c) 1 d1
                      else incCommentCount (comment_post c) (- 1) d1)))"

definition highlightComment :: "oid \<Rightarrow> bool \<Rightarrow> db \<Rightarrow> (error + Comment) \<times> db" where
  "highlightComment commentId isHighlighted d =
     (case findCommentById d commentId of
        None \<Rightarrow> (Inl (AppError CommentNotFound 404), d)
      | Some comment \<Rightarrow>
          (let c = comment\<lparr>comment_isHighlighted := isHighlighted\<rparr>
           in (Inr c, saveComment c d)))"

text \<open>
  Pagination as the queries apply it: \<open>skip((page - 1) * limit)\<close>, which the database
  rejects when negative, then \<open>limit(limit)\<close>, where 0 means no limit and a negative
  number is read as its absolute value.
\<close>

definition paginate :: "int \<Rightarrow> int \<Rightarrow> 'a list \<Rightarrow> error + 'a list" where
  "paginate page limit xs =
     (let skip = (page - 1) * limit
      in if skip < 0 then Inl InternalFailure
         else Inr (let ys = drop (nat skip) xs
                   in if limit = 0 then ys else take (nat \<bar>limit\<bar>) ys))"

text \<open>
  \<open>getPostComments\<close>: the top-level approved comments of a post, highlighted first, then
  newest first. The result is \<open>data\<close> and \<open>meta.total\<close>; \<open>totalPages\<close> is a floating point
  quotient and \<open>populate\<close> only attaches the author and a preview of replies to the
  comments listed, both are left out.
\<close>

definition getPostComments :: "oid \<Rightarrow> int \<Rightarrow> int \<Rightarrow> db \<Rightarrow> error + (Comment list \<times> nat)" where
  "getPostComments postId page limit d =
     (let query = (\<lambda>c. comment_post c = postId \<and> comment_level c = 1 \<and> comment_isApproved c);
          total = countComments d query;
          sorted = sort_key (\<lambda>c. if comment_isHighlighted c then 0 else (1::nat))
                     (sort_key (\<lambda>c. - comment_createdAt c) (findComments d query))
      in case paginate page limit sorted of
           Inl e \<Rightarrow> Inl e
         | Inr comments \<Rightarrow> Inr (comments, total))"

text \<open>\<open>getCommentReplies\<close>: \<open>data\<close>, \<open>parentComment\<close> and \<open>meta.total\<close>.\<close>

definition getCommentReplies ::
  "oid \<Rightarrow> int \<Rightarrow> int \<Rightarrow> db \<Rightarrow> error + (Comment list \<times> Comment \<times> nat)" where
  "getCommentReplies commentId page limit d =
     (case findCommentById d commentId of
        None \<Rightarrow> Inl (AppError CommentNotFound 404)
      | Some parentComment \<Rightarrow>
          (let query = (\<lambda>c. comment_parentComment c = Some commentId \<and> comment_isApproved c);
               total = countComments d query;
               sorted = sort_key comment_createdAt (findComments d query)
           in case paginate page limit sorted of
                Inl e \<Rightarrow> Inl e
              | Inr replies \<Rightarrow> Inr (replies, parentComment, total)))"

section \<open>PostService\<close>

record CreatePostDTO =
  cp_title :: string
  cp_content :: string
  cp_authorId :: oid
  cp_categoryId :: oid
  cp_tagIds :: "oid list option"
  cp_status :: "PostStatus option"
  cp_publishDate :: "date option"
  cp_summary :: "string option"
  cp_slug :: "string option"

record UpdatePostDTO =
  up_title :: "string option"
  up_content :: "string option"
  up_categoryId :: "oid option"
  up_tagIds :: "oid list option"
  up_status :: "PostStatus option"
  up_publishDate :: "date option"
  up_summary :: "string option"
  up_slug :: "string option"

text \<open>\<open>Tag.countDocuments({ _id: { $in: tagIds } }) !== tagIds.length\<close>.\<close>

definition tagsMissing :: "db \<Rightarrow> oid list \<Rightarrow> bool" where
  "tagsMissing d tagIds = (length (filter (\<lambda>t. t \<in> set tagIds) (db_tags d)) \<noteq> length tagIds)"

text \<open>
  Validation of \<open>postData\<close>, as \<open>Post.create\<close> runs it before the save hook: the
  trimmed title is not empty and has at most 100 code units, the content is not empty, a
  summary has at most 500 code units when trimmed, and a slug is supplied and is not
  empty when trimmed (\<open>slug\<close> is \<open>required\<close>, and the hook that derives one from the
  title runs only after validation). \<open>createPost\<close> copies an empty summary or slug no
  more than a missing one.
\<close>

definition validPostData :: "CreatePostDTO \<Rightarrow> bool" where
  "validPostData data =
     (jsTrim (cp_title data) \<noteq> [] \<and> length (jsTrim (cp_title data)) \<le> 100
      \<and> cp_content data \<noteq> []
      \<and> (case cp_summary data of None \<Rightarrow> True | Some s \<Rightarrow> length (jsTrim s) \<le> 500)
      \<and> (case cp_slug data of None \<Rightarrow> False | Some s \<Rightarrow> jsTrim s \<noteq> []))"

text \<open>
  The document \<open>createPost\<close> hands to \<open>Post.create\<close>: \<open>postData\<close> with the schema
  defaults and the title trimmed, after the save hook.
\<close>

definition newPost :: "date \<Rightarrow> oid \<Rightarrow> CreatePostDTO \<Rightarrow> Post" where
  "newPost now newId data =
     (let postData =
            \<lparr>post_id = newId, post_title = jsTrim (cp_title data),
             post_content = cp_content data,
             post_author = cp_authorId data, post_category = cp_categoryId data,
             post_tags = (case cp_tagIds data of None \<Rightarrow> [] | Some tagIds \<Rightarrow> tagIds),
             post_status = (case cp_status data of None \<Rightarrow> DRAFT | Some s \<Rightarrow> s),
             post_publishDate = None,
             post_viewCount = 0, post_likeCount = 0, post_commentCount = 0, post_likes = []\<rparr>;
          postData1 = (if cp_status data = Some SCHEDULED \<and> cp_publishDate data \<noteq> None
                       then postData\<lparr>post_publishDate := cp_publishDate data\<rparr> else postData);
          postData2 = (if cp_status data = Some PUBLISHED
                       then postData1\<lparr>post_publishDate := Some now\<rparr> else postData1)
      in postPreSave now postData2)"

definition createPost :: "date \<Rightarrow> oid \<Rightarrow> CreatePostDTO \<Rightarrow> db \<Rightarrow> (error + Post) \<times> db" where
  "createPost now newId data d =
     (if \<not> userExists d (cp_authorId data) then (Inl (AppError AuthorNotFound 404), d)
      else if findCategoryById (db_categories d) (cp_categoryId data) = None
      then (Inl (AppError CategoryNotFound 404), d)
      else if (case cp_tagIds data of None \<Rightarrow> False
               | Some tagIds \<Rightarrow> length tagIds > 0 \<and> tagsMissing d tagIds)
      then (Inl (AppError SomeTagsMissing 404), d)
      else if \<not> validPostData data then (Inl ValidationError, d)
      else (let post = newPost now newId data
            in (Inr post, d\<lparr>db_posts := db_posts d @ [post]\<rparr>)))"

text \<open>
  The validators \<open>findByIdAndUpdate\<close> runs on \<open>updateData\<close> (\<open>runValidators: true\<close>),
  on the paths that are set: title, summary and slug. A field that is empty counts as
  not given and is not in \<open>updateData\<close>.
\<close>

definition validUpdateData :: "UpdatePostDTO \<Rightarrow> bool" where
  "validUpdateData data =
     ((case up_title data of None \<Rightarrow> True
       | Some t \<Rightarrow> if t = [] then True else jsTrim t \<noteq> [] \<and> length (jsTrim t) \<le> 100)
      \<and> (case up_summary data of None \<Rightarrow> True | Some s \<Rightarrow> length (jsTrim s) \<le> 500)
      \<and> (case up_slug data of None \<Rightarrow> True
          | Some s \<Rightarrow> if s = [] then True else jsTrim s \<noteq> []))"

text \<open>
  \<open>updateData\<close> of \<open>updatePost\<close>, applied to the post it was built from, with the title
  trimmed.
\<close>

definition applyUpdateData :: "date \<Rightarrow> Post \<Rightarrow> UpdatePostDTO \<Rightarrow> Post" where
  "applyUpdateData now post data =
     (let p1 = (if truthy (up_title data) then post\<lparr>post_title := jsTrim (the (up_title data))\<rparr> else post);
          p2 = (if truthy (up_content data) then p1\<lparr>post_content := the (up_content data)\<rparr> else p1);
          p3 = (case up_status data of
                  None \<Rightarrow> p2
                | Some s \<Rightarrow>
                    (let q = p2\<lparr>post_status := s\<rparr>
                     in if s = PUBLISHED \<and> post_status post \<noteq> PUBLISHED
                        then q\<lparr>post_publishDate := Some now\<rparr>
                        else if s = SCHEDULED
                        then q\<lparr>post_publishDate :=
                                 Some (case up_publishDate data of None \<Rightarrow> now | Some t \<Rightarrow> t)\<rparr>
                        else q));
          p4 = (if truthy (up_categoryId data)
                then p3\<lparr>post_category := the (up_categoryId data)\<rparr> else p3)
      in case up_tagIds data of None \<Rightarrow> p4 | Some tagIds \<Rightarrow> p4\<lparr>post_tags := tagIds\<rparr>)"

text \<open>\<open>updatePost\<close> writes with \<open>findByIdAndUpdate\<close>, which runs no save hook.\<close>

definition updatePost :: "date \<Rightarrow> oid \<Rightarrow> oid \<Rightarrow> UpdatePostDTO \<Rightarrow> db \<Rightarrow> (error + Post) \<times> db" where
  "updatePost now postId authorId data d =
     (case findPostById d postId of
        None \<Rightarrow> (Inl (AppError PostNotFound 404), d)
      | Some post \<Rightarrow>
          if post_author post \<noteq> authorId then (Inl (AppError OnlyAuthorUpdate 403), d)
          else if truthy (up_categoryId data)
                  \<and> findCategoryById (db_categories d) (the (up_categoryId data)) = None
          then (Inl (AppError CategoryNotFound 404), d)
          else if (case up_tagIds data of None \<Rightarrow> False | Some tagIds \<Rightarrow> tagsMissing d tagIds)
          then (Inl (AppError SomeTagsMissing 404), d)
          else if \<not> validUpdateData data then (Inl ValidationError, d)
          else (let updatedPost = applyUpdateData now post data
                in (Inr updatedPost,
                    d\<lparr>db_posts := map (\<lambda>x. if post_id x = postId then updatedPost else x)
                                      (db_posts d)\<rparr>)))"

definition publishPost :: "date \<Rightarrow> oid \<Rightarrow> oid \<Rightarrow> db \<Rightarrow> (error + Post) \<times> db" where
  "publishPost now postId authorId d =
     (case findPostById d postId of
        None \<Rightarrow> (Inl (AppError PostNotFound 404), d)
      | Some post \<Rightarrow>
          if post_author post \<noteq> authorId then (Inl (AppError OnlyAuthorPublish 403), d)
          else if post_status post = PUBLISHED then (Inl (AppError AlreadyPublished 400), d)
          else (let p = postPreSave now (post\<lparr>post_status := PUBLISHED, post_publishDate := Some now\<rparr>)
                in (Inr p, savePost now p d)))"

definition unpublishPost :: "date \<Rightarrow> oid \<Rightarrow> oid \<Rightarrow> db \<Rightarrow> (error + Post) \<times> db" where
  "unpublishPost now postId authorId d =
     (case findPostById d postId of
        None \<Rightarrow> (Inl (AppError PostNotFound 404), d)
      | Some post \<Rightarrow>
          if post_author post \<noteq> authorId then (Inl (AppError OnlyAuthorChangeStatus 403), d)
          else (let p = postPreSave now (post\<lparr>post_status := DRAFT\<rparr>)
                in (Inr p, savePost now p d)))"

definition schedulePost :: "date \<Rightarrow> oid \<Rightarrow> oid \<Rightarrow> date \<Rightarrow> db \<Rightarrow> (error + Post) \<times> db" where
  "schedulePost now postId authorId publishDate d =
     (case findPostById d postId of
        None \<Rightarrow> (Inl (AppError PostNotFound 404), d)
      | Some post \<Rightarrow>
          if post_author post \<noteq> authorId then (Inl (AppError OnlyAuthorSchedule 403), d)
          else if publishDate \<le> now then (Inl (AppError ScheduleDateMustBeFuture 400), d)
          else (let p = postPreSave now (post\<lparr>post_status := SCHEDULED,
                                                post_publishDate := Some publishDate\<rparr>)
                in (Inr p, savePost now p d)))"

definition likePost :: "date \<Rightarrow> oid \<Rightarrow> oid \<Rightarrow> db \<Rightarrow> (error + unit) \<times> db" where
  "likePost now postId userId d =
     (case findPostById d postId of
        None \<Rightarrow> (Inl (AppError PostNotFound 404), d)
      | Some post \<Rightarrow>
          if userId \<in> set (post_likes post) then (Inl (AppError AlreadyLiked 400), d)
          else (let p = post\<lparr>post_likes := post_likes post @ [userId],
                             post_likeCount := int (length (post_likes post @ [userId]))\<rparr>
                in (Inr (), savePost now p d)))"

definition unlikePost :: "date \<Rightarrow> oid \<Rightarrow> oid \<Rightarrow> db \<Rightarrow> (error + unit) \<times> db" where
  "unlikePost now postId userId d =
     (case findPostById d postId of
        None \<Rightarrow> (Inl (AppError PostNotFound 404), d)
      | Some post \<Rightarrow>
          if userId \<notin> set (post_likes post) then (Inl (AppError NotLikedYet 400), d)
          else (let ls = filter (\<lambda>i. i \<noteq> userId) (post_likes post);
                    p = post\<lparr>post_likes := ls, post_likeCount := int (length ls)\<rparr>
                in (Inr (), savePost now p d)))"

text \<open>
  \<open>publishScheduledPosts\<close>: one \<open>updateMany\<close> over the posts that are scheduled and due
  (a missing publish date matches no \<open>$lte\<close>); the result is \<open>modifiedCount\<close>.
\<close>

definition due :: "date \<Rightarrow> Post \<Rightarrow> bool" where
  "due now p = (post_status p = SCHEDULED
                \<and> (case post_publishDate p of None \<Rightarrow> False | Some t \<Rightarrow> t \<le> now))"

definition publishScheduledPosts :: "date \<Rightarrow> db \<Rightarrow> nat \<times> db" where
  "publishScheduledPosts now d =
     (length (filter (due now) (db_posts d)),
      d\<lparr>db_posts := map (\<lambda>p. if due now p then p\<lparr>post_status := PUBLISHED\<rparr> else p) (db_posts d)\<rparr>)"

section \<open>CategoryService\<close>

record UpdateCategoryDTO =
  uc_name :: "string option"
  uc_description :: "string option"
  uc_parent :: "oid option option"
  uc_order :: "int option"

text \<open>
  The loop of \<open>updateCategory\<close> that walks up from the proposed parent. It answers
  \<open>True\<close> when it meets \<open>categoryId\<close> (the source throws there) and \<open>False\<close> when the
  chain ends; on a chain that never ends it does not return.
\<close>

partial_function (option) walkAncestors :: "Category list \<Rightarrow> oid \<Rightarrow> Category \<Rightarrow> bool option" where
  "walkAncestors cs categoryId currentParent =
     (case cat_parentCategory currentParent of
        None \<Rightarrow> Some False
      | Some p \<Rightarrow>
          if p = categoryId then Some True
          else (case findCategoryById cs p of
                  None \<Rightarrow> Some False
                | Some nextParent \<Rightarrow> walkAncestors cs categoryId nextParent))"

declare walkAncestors.simps [code]

text \<open>
  \<open>updateCategory\<close>. \<open>uc_parent\<close> is \<open>None\<close> for undefined, \<open>Some None\<close> for null.
  \<open>slugify\<close> (utils) and \<open>slugOfName\<close> (the schema's save hook) are regular expressions
  over Unicode text and are arguments here. The outer \<open>option\<close> is \<open>None\<close> when the walk
  does not return.
\<close>

definition updateCategory ::
  "(string \<Rightarrow> string) \<Rightarrow> (string \<Rightarrow> string) \<Rightarrow> oid \<Rightarrow> UpdateCategoryDTO \<Rightarrow> db
     \<Rightarrow> ((error + Category) \<times> db) option" where
  "updateCategory slugify slugOfName categoryId data d =
     (let cs = db_categories d in
      case findCategoryById cs categoryId of
        None \<Rightarrow> Some (Inl (AppError CategoryNotFound 404), d)
      | Some category \<Rightarrow>
          if truthy (uc_name data) \<and> the (uc_name data) \<noteq> cat_name category
             \<and> find (\<lambda>c. cat_name c = the (uc_name data) \<and> cat_id c \<noteq> categoryId) cs \<noteq> None
          then Some (Inl (AppError CategoryNameExists 400), d)
          else if truthy (uc_name data) \<and> the (uc_name data) \<noteq> cat_name category
             \<and> find (\<lambda>c. cat_slug c = slugify (the (uc_name data)) \<and> cat_id c \<noteq> categoryId) cs \<noteq> None
          then Some (Inl (AppError CategorySlugExists 400), d)
          else if uc_parent data = Some (Some categoryId)
          then Some (Inl (AppError SelfParent 400), d)
          else if (case uc_parent data of Some p \<Rightarrow> truthy p \<and> findCategoryById cs (the p) = None
                   | None \<Rightarrow> False)
          then Some (Inl (AppError ParentCategoryNotFound 404), d)
          else
            (case (case uc_parent data of
                     Some (Some p) \<Rightarrow>
                       (case findCategoryById cs p of
                          Some parentCategory \<Rightarrow>
                            if p \<noteq> [] then walkAncestors cs categoryId parentCategory
                            else Some False
                        | None \<Rightarrow> Some False)
                   | _ \<Rightarrow> Some False) of
               None \<Rightarrow> None
             | Some True \<Rightarrow> Some (Inl (AppError CyclicParent 400), d)
             | Some False \<Rightarrow>
                 (let c1 = (if truthy (uc_name data)
                            then (if the (uc_name data) \<noteq> cat_name category
                                  then category\<lparr>cat_name := the (uc_name data),
                                                cat_slug := slugOfName (the (uc_name data))\<rparr>
                                  else category)
                            else category);
                      c2 = (case uc_description data of None \<Rightarrow> c1
                            | Some s \<Rightarrow> c1\<lparr>cat_description := s\<rparr>);
                      c3 = (case uc_parent data of None \<Rightarrow> c2
                            | Some p \<Rightarrow> c2\<lparr>cat_parentCategory := (if truthy p then p else None)\<rparr>);
                      c4 = (case uc_order data of None \<Rightarrow> c3 | Some k \<Rightarrow> c3\<lparr>cat_order := k\<rparr>)
                  in Some (Inr c4, d\<lparr>db_categories :=
                                        map (\<lambda>x. if cat_id x = categoryId then c4 else x) cs\<rparr>))))"

section \<open>Sequences of operations\<close>

text \<open>
  The calls a client can make on the comment service and on the post life cycle, each
  taken at a clock value. A call that throws leaves the database as the call left it,
  and the run goes on with the next call.
\<close>

datatype CommentOp =
    CreateCommentOp bool oid CreateCommentDTO
  | UpdateCommentOp oid oid string
  | DeleteCommentOp oid oid bool
  | LikeCommentOp bool oid oid
  | UnlikeCommentOp oid oid
  | ModerateCommentOp oid bool
  | HighlightCommentOp oid bool

fun applyCommentOp :: "date \<Rightarrow> CommentOp \<Rightarrow> db \<Rightarrow> db" where
  "applyCommentOp now (CreateCommentOp ok newId data) d = snd (createComment ok now newId data d)"
| "applyCommentOp now (UpdateCommentOp commentId authorId content) d =
     snd (updateComment commentId authorId content d)"
| "applyCommentOp now (DeleteCommentOp commentId userId isAdmin) d =
     snd (deleteComment now commentId userId isAdmin d)"
| "applyCommentOp now (LikeCommentOp ok commentId userId) d = snd (likeComment ok commentId userId d)"
| "applyCommentOp now (UnlikeCommentOp commentId userId) d = snd (unlikeComment commentId userId d)"
| "applyCommentOp now (ModerateCommentOp commentId isApproved) d =
     snd (moderateComment commentId isApproved d)"
| "applyCommentOp now (HighlightCommentOp commentId isHighlighted) d =
     snd (highlightComment commentId isHighlighted d)"

fun runCommentOps :: "(date \<times> CommentOp) list \<Rightarrow> db \<Rightarrow> db" where
  "runCommentOps [] d = d"
| "runCommentOps ((now, c) # ops) d = runCommentOps ops (applyCommentOp now c d)"

datatype PostOp =
    CreatePostOp oid CreatePostDTO
  | UpdatePostOp oid oid UpdatePostDTO
  | PublishPostOp oid oid
  | UnpublishPostOp oid oid
  | SchedulePostOp oid oid date
  | SweepOp

fun applyPostOp :: "date \<Rightarrow> PostOp \<Rightarrow> db \<Rightarrow> db" where
  "applyPostOp now (CreatePostOp newId data) d = snd (createPost now newId data d)"
| "applyPostOp now (UpdatePostOp postId authorId data) d = snd (updatePost now postId authorId data d)"
| "applyPostOp now (PublishPostOp postId authorId) d = snd (publishPost now postId authorId d)"
| "applyPostOp now (UnpublishPostOp postId authorId) d = snd (unpublishPost now postId authorId d)"
| "applyPostOp now (SchedulePostOp postId authorId publishDate) d =
     snd (schedulePost now postId authorId publishDate d)"
| "applyPostOp now SweepOp d = snd (publishScheduledPosts now d)"

fun runPostOps :: "(date \<times> PostOp) list \<Rightarrow> db \<Rightarrow> db" where
  "runPostOps [] d = d"
| "runPostOps ((now, c) # ops) d = runPostOps ops (applyPostOp now c d)"

text \<open>A create call that asks for a scheduled post names the date to publish at.\<close>

fun datedCreate :: "PostOp \<Rightarrow> bool" where
  "datedCreate (CreatePostOp newId data) =
     (cp_status data = Some SCHEDULED \<longrightarrow> cp_publishDate data \<noteq> None)"
| "datedCreate _ = True"

text \<open>
  The number the comment counter of a post is meant to hold: the comments of the post
  that are approved and not deleted.
\<close>

definition visibleCommentCount :: "db \<Rightarrow> oid \<Rightarrow> int" where
  "visibleCommentCount d postId =
     int (countComments d (\<lambda>c. comment_post c = postId \<and> comment_isApproved c
                                \<and> \<not> comment_isDeleted c))"

text \<open>
  \<open>descendant cs x c\<close>: the category document \<open>c\<close> lies below the category with id \<open>x\<close>,
  through parent links that resolve in \<open>cs\<close>.
\<close>

inductive descendant :: "Category list \<Rightarrow> oid \<Rightarrow> Category \<Rightarrow> bool" for cs x where
  child: "cat_parentCategory c = Some x \<Longrightarrow> descendant cs x c"
| below: "cat_parentCategory c = Some p \<Longrightarrow> findCategoryById cs p = Some pc
          \<Longrightarrow> descendant cs x pc \<Longrightarrow> descendant cs x c"

section \<open>A small database\<close>

text \<open>
  Two users, one category with a child and a grandchild, one draft post of user \<open>u1\<close>
  and one comment on it by \<open>u1\<close> that \<open>u2\<close> likes.
\<close>

definition cat_root :: Category where
  "cat_root = \<lparr>cat_id = ''k1'', cat_name = ''news'', cat_slug = ''news'', cat_description = [],
               cat_parentCategory = None, cat_order = 0\<rparr>"

definition cat_mid :: Category where
  "cat_mid = \<lparr>cat_id = ''k2'', cat_name = ''tech'', cat_slug = ''tech'', cat_description = [],
              cat_parentCategory = Some ''k1'', cat_order = 0\<rparr>"

definition cat_leaf :: Category where
  "cat_leaf = \<lparr>cat_id = ''k3'', cat_name = ''web'', cat_slug = ''web'', cat_description = [],
               cat_parentCategory = Some ''k2'', cat_order = 1\<rparr>"

definition post1 :: Post where
  "post1 = \<lparr>post_id = ''p1'', post_title = ''hello'', post_content = ''text'',
            post_author = ''u1'', post_category = ''k1'', post_tags = [],
            post_status = DRAFT, post_publishDate = None,
            post_viewCount = 0, post_likeCount = 1, post_commentCount = 1,
            post_likes = [''u2'']\<rparr>"

definition comment1 :: Comment where
  "comment1 = \<lparr>comment_id = ''c1'', comment_content = ''first'', comment_post = ''p1'',
               comment_author = ''u1'', comment_parentComment = None,
               comment_level = 1, comment_path = [], comment_likes = [''u2''],
               comment_likeCount = 1, comment_isEdited = False, comment_isApproved = True,
               comment_isHighlighted = False, comment_isDeleted = False,
               comment_deletedAt = None, comment_createdAt = 5\<rparr>"

definition db1 :: db where
  "db1 = \<lparr>db_users = [''u1'', ''u2''], db_tags = [''t1''],
          db_categories = [cat_root, cat_mid, cat_leaf],
          db_posts = [post1], db_comments = [comment1], db_notifications = []\<rparr>"

definition topLevelDTO :: CreateCommentDTO where
  "topLevelDTO = \<lparr>dto_content = ''A'', dto_postId = ''p1'', dto_authorId = ''u2'',
                  dto_parentCommentId = None\<rparr>"

definition replyDTO :: "oid \<Rightarrow> CreateCommentDTO" where
  "replyDTO parent = \<lparr>dto_content = ''B'', dto_postId = ''p1'', dto_authorId = ''u1'',
                      dto_parentCommentId = Some parent\<rparr>"

definition scheduledDTO :: "date option \<Rightarrow> CreatePostDTO" where
  "scheduledDTO t = \<lparr>cp_title = ''later'', cp_content = ''text'', cp_authorId = ''u1'',
                     cp_categoryId = ''k1'', cp_tagIds = None, cp_status = Some SCHEDULED,
                     cp_publishDate = t, cp_summary = None, cp_slug = Some ''later''\<rparr>"

text \<open>Three posts for the sweep: a draft, one scheduled and due at time 10, one scheduled for later.\<close>

definition post_due :: Post where
  "post_due = post1\<lparr>post_id := ''p2'', post_status := SCHEDULED, post_publishDate := Some 5\<rparr>"

definition post_later :: Post where
  "post_later = post1\<lparr>post_id := ''p3'', post_status := SCHEDULED, post_publishDate := Some 50\<rparr>"

definition db2 :: db where
  "db2 = db1\<lparr>db_posts := [post1, post_due, post_later]\<rparr>"

text \<open>A patch that only moves a category under a new parent.\<close>

definition reparentDTO :: "oid \<Rightarrow> UpdateCategoryDTO" where
  "reparentDTO p = \<lparr>uc_name = None, uc_description = None, uc_parent = Some (Some p),
                    uc_order = None\<rparr>"

text \<open>
  The place of a comment in the tree as it is stored: its id, level and path. And the
  ids that a run of comment operations hands to its create calls.
\<close>

definition treePosition :: "Comment \<Rightarrow> oid \<times> int \<times> string" where
  "treePosition c = (comment_id c, comment_level c, comment_path c)"

fun newIds :: "(date \<times> CommentOp) list \<Rightarrow> oid list" where
  "newIds [] = []"
| "newIds ((now, CreateCommentOp ok newId data) # ops) = newId # newIds ops"
| "newIds (_ # ops) = newIds ops"

text \<open>
  The thread scenario on the small database: user \<open>u2\<close> writes the top-level comment
  \<open>a\<close>, user \<open>u1\<close> replies to it with \<open>b\<close>, then \<open>u2\<close> deletes \<open>a\<close>.
\<close>

definition commentA :: Comment where
  "commentA = newComment ''a'' 1 ''A'' ''p1'' ''u2'' None"

definition commentB :: Comment where
  "commentB = (newComment ''b'' 2 ''B'' ''p1'' ''u1'' (Some ''a''))
                \<lparr>comment_level := 2, comment_path := ''a''\<rparr>"

definition dbA :: db where
  "dbA = snd (createComment True 1 ''a'' topLevelDTO db1)"

definition dbAB :: db where
  "dbAB = snd (createComment True 2 ''b'' (replyDTO ''a'') dbA)"

definition dbABdel :: db where
  "dbABdel = snd (deleteComment 3 ''a'' ''u2'' False dbAB)"

text \<open>
  An empty blog for the life cycle of a post, a plain draft to create in it, and the post
  that \<open>createPost\<close> stores for a schedule date in the past.
\<close>

definition db0 :: db where
  "db0 = db1\<lparr>db_posts := [], db_comments := []\<rparr>"

definition draftDTO :: CreatePostDTO where
  "draftDTO = \<lparr>cp_title = ''hello'', cp_content = ''text'', cp_authorId = ''u1'',
               cp_categoryId = ''k1'', cp_tagIds = None, cp_status = None,
               cp_publishDate = None, cp_summary = None, cp_slug = Some ''hello''\<rparr>"

definition latePost :: Post where
  "latePost = \<lparr>post_id = ''p9'', post_title = ''later'', post_content = ''text'',
               post_author = ''u1'', post_category = ''k1'', post_tags = [],
               post_status = SCHEDULED, post_publishDate = Some 50,
               post_viewCount = 0, post_likeCount = 0, post_commentCount = 0,
               post_likes = []\<rparr>"

text \<open>A live post is one that is published or scheduled; it is dated when it has a publish date.\<close>

definition datedIfLive :: "Post \<Rightarrow> bool" where
  "datedIfLive p = (post_status p \<noteq> DRAFT \<longrightarrow> post_publishDate p \<noteq> None)"

text \<open>
  What \<open>createComment\<close> is to store for the input \<open>data\<close> on the database \<open>d\<close>: the
  new id, the trimmed content, post and author as given, no likes, and level and path from
  the parent the comment names (level 1 and the empty path when it names none).
\<close>

definition createdRight :: "db \<Rightarrow> oid \<Rightarrow> CreateCommentDTO \<Rightarrow> Comment \<Rightarrow> bool" where
  "createdRight d newId data c =
     (comment_id c = newId \<and> comment_content c = jsTrim (dto_content data)
      \<and> comment_post c = dto_postId data \<and> comment_author c = dto_authorId data
      \<and> comment_likes c = [] \<and> comment_likeCount c = 0
      \<and> (case comment_parentComment c of
            None \<Rightarrow> comment_level c = 1 \<and> comment_path c = []
          | Some pid \<Rightarrow>
              (case findCommentById d pid of
                 None \<Rightarrow> False
               | Some parent \<Rightarrow>
                   comment_level c = comment_level parent + 1
                   \<and> comment_path c = (if comment_path parent = [] then pid
                                        else comment_path parent @ ''/'' @ pid))))"

text \<open>The counter of likes of a comment agrees with its list of likes.\<close>

definition likesCounted :: "Comment \<Rightarrow> bool" where
  "likesCounted c = (comment_likeCount c = int (length (comment_likes c)))"

section \<open>Likes: the double action on posts and on comments\<close>

lemma find_by_id_replace_same:
  assumes "distinct (map f xs)" and "find P xs = Some x"
  shows "map (\<lambda>y. if f y = f x then x else y) xs = xs"
proof -
  from assms(2) have xin: "x \<in> set xs" by (auto simp: find_Some_iff)
  have "\<And>y. y \<in> set xs \<Longrightarrow> f y = f x \<Longrightarrow> y = x"
    using assms(1) xin by (meson distinct_map inj_onD)
  then show ?thesis by (induction xs) (auto simp: map_idI)
qed

text \<open>
  C7. When the user is already among the likes of a post, \<open>likePost\<close> throws the
  "already liked" error (status 400) and the database is as before. When the user is
  already among the likes of a comment, \<open>likeComment\<close> returns the comment as stored and
  the database is as before.
\<close>

theorem double_like_asymmetry:
  "(findPostById d postId = Some post \<longrightarrow> userId \<in> set (post_likes post)
      \<longrightarrow> likePost now postId userId d = (Inl (AppError AlreadyLiked 400), d))
   \<and> (findCommentById d commentId = Some comment \<longrightarrow> userId \<in> set (comment_likes comment)
      \<longrightarrow> likeComment ok commentId userId d = (Inr comment, d))"
  by (simp add: likePost_def likeComment_def)

theorem double_like_asymmetry_witness:
  "findPostById db1 ''p1'' = Some post1 \<and> ''u2'' \<in> set (post_likes post1)
   \<and> likePost 7 ''p1'' ''u2'' db1 = (Inl (AppError AlreadyLiked 400), db1)
   \<and> findCommentById db1 ''c1'' = Some comment1 \<and> ''u2'' \<in> set (comment_likes comment1)
   \<and> likeComment True ''c1'' ''u2'' db1 = (Inr comment1, db1)"
  using double_like_asymmetry [of db1 "''p1''" post1 "''u2''" 7 "''c1''" comment1 True]
  by (simp add: findPostById_def findCommentById_def db1_def post1_def comment1_def)

text \<open>
  C10. When the user is not among the likes of a post, \<open>unlikePost\<close> throws the
  "not liked yet" error (status 400) and the database is as before. When the user is not
  among the likes of a comment whose counter equals the length of its likes, in a
  collection with unique ids, \<open>unlikeComment\<close> returns the comment as stored and the
  database is as before.
\<close>

theorem unlike_asymmetry:
  "(findPostById d postId = Some post \<longrightarrow> userId \<notin> set (post_likes post)
      \<longrightarrow> unlikePost now postId userId d = (Inl (AppError NotLikedYet 400), d))
   \<and> (findCommentById d commentId = Some comment \<longrightarrow> userId \<notin> set (comment_likes comment)
      \<longrightarrow> comment_likeCount comment = int (length (comment_likes comment))
      \<longrightarrow> distinct (map comment_id (db_comments d))
      \<longrightarrow> unlikeComment commentId userId d = (Inr comment, d))"
proof (intro conjI impI)
  assume "findPostById d postId = Some post" "userId \<notin> set (post_likes post)"
  then show "unlikePost now postId userId d = (Inl (AppError NotLikedYet 400), d)"
    by (simp add: unlikePost_def)
next
  assume f: "findCommentById d commentId = Some comment"
    and n: "userId \<notin> set (comment_likes comment)"
    and k: "comment_likeCount comment = int (length (comment_likes comment))"
    and dist: "distinct (map comment_id (db_comments d))"
  have flt: "filter (\<lambda>i. i \<noteq> userId) (comment_likes comment) = comment_likes comment"
    using n by (auto simp: filter_id_conv)
  have same: "comment\<lparr>comment_likes := comment_likes comment,
                   comment_likeCount := int (length (comment_likes comment))\<rparr> = comment"
    using k by simp
  have "saveComment comment d = d"
    using find_by_id_replace_same[OF dist, of _ comment] f
    by (simp add: saveComment_def findCommentById_def)
  then show "unlikeComment commentId userId d = (Inr comment, d)"
    using f flt same by (simp add: unlikeComment_def Let_def)
qed

theorem unlike_asymmetry_witness:
  "findPostById db1 ''p1'' = Some post1 \<and> ''u1'' \<notin> set (post_likes post1)
   \<and> unlikePost 7 ''p1'' ''u1'' db1 = (Inl (AppError NotLikedYet 400), db1)
   \<and> findCommentById db1 ''c1'' = Some comment1 \<and> ''u1'' \<notin> set (comment_likes comment1)
   \<and> comment_likeCount comment1 = int (length (comment_likes comment1))
   \<and> distinct (map comment_id (db_comments db1))
   \<and> unlikeComment ''c1'' ''u1'' db1 = (Inr comment1, db1)"
  using unlike_asymmetry [of db1 "''p1''" post1 "''u1''" 7 "''c1''" comment1]
  by (simp add: findPostById_def findCommentById_def db1_def post1_def comment1_def)

section \<open>The scheduled-publish sweep\<close>

lemma sweep_posts_nth:
  assumes "i < length (db_posts d)"
  shows "db_posts (snd (publishScheduledPosts now d)) ! i =
           (if due now (db_posts d ! i) then (db_posts d ! i)\<lparr>post_status := PUBLISHED\<rparr>
            else db_posts d ! i)"
  using assms by (simp add: publishScheduledPosts_def)

lemma sweep_changed_iff_due:
  assumes "i < length (db_posts d)"
  shows "(db_posts (snd (publishScheduledPosts now d)) ! i \<noteq> db_posts d ! i) = due now (db_posts d ! i)"
proof (cases "due now (db_posts d ! i)")
  case True
  then have "post_status (db_posts d ! i) = SCHEDULED" by (simp add: due_def)
  then have "(db_posts d ! i)\<lparr>post_status := PUBLISHED\<rparr> \<noteq> db_posts d ! i"
    by (metis PostStatus.distinct(5) Post.select_convs(7) Post.update_convs(7) Post.surjective)
  with True assms show ?thesis by (simp add: sweep_posts_nth)
next
  case False
  with assms show ?thesis by (simp add: sweep_posts_nth)
qed

lemma filter_map_none:
  "(\<And>x. x \<in> set xs \<Longrightarrow> \<not> P (f x)) \<Longrightarrow> filter P (map f xs) = []"
  by (induction xs) simp_all

lemma map_map_fixed:
  "(\<And>x. x \<in> set xs \<Longrightarrow> g (f x) = f x) \<Longrightarrow> map g (map f xs) = map f xs"
  by (induction xs) simp_all

lemma sweep_twice:
  "publishScheduledPosts now (snd (publishScheduledPosts now d)) = (0, snd (publishScheduledPosts now d))"
proof -
  let ?f = "\<lambda>p. if due now p then p\<lparr>post_status := PUBLISHED\<rparr> else p"
  have nd: "\<And>p. \<not> due now (?f p)" by (simp add: due_def)
  have a: "filter (due now) (map ?f (db_posts d)) = []"
    by (rule filter_map_none) (rule nd)
  have b: "map ?f (map ?f (db_posts d)) = map ?f (db_posts d)"
    by (rule map_map_fixed) (simp add: due_def)
  show ?thesis
    unfolding publishScheduledPosts_def using a b by simp
qed

text \<open>
  C5. The sweep keeps the list of posts in place; a post that is scheduled and due
  (\<open>publishDate \<le> now\<close>) becomes published and every other post is unchanged; no
  publish date changes; the number returned is the number of posts that changed; nothing
  else in the database changes; and a second sweep at the same clock value returns 0 and
  changes nothing.
\<close>

theorem sweep_publishes_due_posts:
  "length (db_posts (snd (publishScheduledPosts now d))) = length (db_posts d)
   \<and> (\<forall>i<length (db_posts d).
        (due now (db_posts d ! i) \<longrightarrow>
           db_posts (snd (publishScheduledPosts now d)) ! i = (db_posts d ! i)\<lparr>post_status := PUBLISHED\<rparr>)
      \<and> (\<not> due now (db_posts d ! i) \<longrightarrow>
           db_posts (snd (publishScheduledPosts now d)) ! i = db_posts d ! i)
      \<and> post_publishDate (db_posts (snd (publishScheduledPosts now d)) ! i)
          = post_publishDate (db_posts d ! i))
   \<and> fst (publishScheduledPosts now d)
       = card {i. i < length (db_posts d)
                 \<and> db_posts (snd (publishScheduledPosts now d)) ! i \<noteq> db_posts d ! i}
   \<and> (snd (publishScheduledPosts now d))\<lparr>db_posts := db_posts d\<rparr> = d
   \<and> publishScheduledPosts now (snd (publishScheduledPosts now d))
       = (0, snd (publishScheduledPosts now d))"
proof (intro conjI allI impI)
  show "length (db_posts (snd (publishScheduledPosts now d))) = length (db_posts d)"
    by (simp add: publishScheduledPosts_def)
next
  fix i assume "i < length (db_posts d)" "due now (db_posts d ! i)"
  then show "db_posts (snd (publishScheduledPosts now d)) ! i = (db_posts d ! i)\<lparr>post_status := PUBLISHED\<rparr>"
    by (simp add: sweep_posts_nth)
next
  fix i assume "i < length (db_posts d)" "\<not> due now (db_posts d ! i)"
  then show "db_posts (snd (publishScheduledPosts now d)) ! i = db_posts d ! i"
    by (simp add: sweep_posts_nth)
next
  fix i assume "i < length (db_posts d)"
  then show "post_publishDate (db_posts (snd (publishScheduledPosts now d)) ! i)
          = post_publishDate (db_posts d ! i)"
    by (simp add: sweep_posts_nth)
next
  have "{i. i < length (db_posts d)
            \<and> db_posts (snd (publishScheduledPosts now d)) ! i \<noteq> db_posts d ! i}
        = {i. i < length (db_posts d) \<and> due now (db_posts d ! i)}"
    using sweep_changed_iff_due by blast
  then show "fst (publishScheduledPosts now d)
       = card {i. i < length (db_posts d)
                 \<and> db_posts (snd (publishScheduledPosts now d)) ! i \<noteq> db_posts d ! i}"
    by (simp add: publishScheduledPosts_def length_filter_conv_card)
next
  show "(snd (publishScheduledPosts now d))\<lparr>db_posts := db_posts d\<rparr> = d"
    by (simp add: publishScheduledPosts_def)
next
  show "publishScheduledPosts now (snd (publishScheduledPosts now d))
       = (0, snd (publishScheduledPosts now d))"
    by (rule sweep_twice)
qed

text \<open>
  The second sweep is also empty at a later clock value, as long as no scheduled post
  has become due in between.
\<close>

lemma sweep_again_later:
  assumes "\<forall>p\<in>set (db_posts d). post_status p = SCHEDULED \<longrightarrow>
             (\<forall>t. post_publishDate p = Some t \<longrightarrow> \<not> (now < t \<and> t \<le> now2))"
  shows "publishScheduledPosts now2 (snd (publishScheduledPosts now d))
           = (0, snd (publishScheduledPosts now d))"
proof -
  let ?f = "\<lambda>p. if due now p then p\<lparr>post_status := PUBLISHED\<rparr> else p"
  have nd: "\<And>p. p \<in> set (db_posts d) \<Longrightarrow> \<not> due now2 (?f p)"
    using assms by (auto simp: due_def split: option.splits)
  have a: "filter (due now2) (map ?f (db_posts d)) = []"
    by (rule filter_map_none) (rule nd)
  have b: "map (\<lambda>p. if due now2 p then p\<lparr>post_status := PUBLISHED\<rparr> else p) (map ?f (db_posts d)) = map ?f (db_posts d)"
    by (rule map_map_fixed) (use nd in presburger)
  show ?thesis
    unfolding publishScheduledPosts_def using a b by simp
qed

theorem sweep_publishes_due_posts_witness:
  "map (due 10) (db_posts db2) = [False, True, False]
   \<and> fst (publishScheduledPosts 10 db2) = 1
   \<and> map post_status (db_posts (snd (publishScheduledPosts 10 db2))) = [DRAFT, PUBLISHED, SCHEDULED]
   \<and> map post_publishDate (db_posts (snd (publishScheduledPosts 10 db2))) = [None, Some 5, Some 50]
   \<and> publishScheduledPosts 10 (snd (publishScheduledPosts 10 db2))
       = (0, snd (publishScheduledPosts 10 db2))"
  using sweep_publishes_due_posts [of 10 db2]
  by (simp add: publishScheduledPosts_def due_def db2_def db1_def post1_def post_due_def post_later_def)

section \<open>Reassigning the parent of a category\<close>

lemma walk_reaches_ancestor:
  "descendant cs x c \<Longrightarrow> walkAncestors cs x c = Some True"
proof (induction rule: descendant.induct)
  case (child c)
  then show ?case by (subst walkAncestors.simps) simp
next
  case (below c p pc)
  then show ?case by (subst walkAncestors.simps) simp
qed

text \<open>
  C8. Let X be a stored category and let the stored category D lie below X. Then
  \<open>updateCategory\<close> of X with \<open>parent = D\<close> returns (the walk up from D ends), it throws
  an error of status 400, and the database, so every parent and every order, is as
  before. When the patch carries no name the error is the one of the cycle check (of
  the self-parent check when D is X itself).
\<close>

theorem cyclic_parent_rejected:
  assumes X: "findCategoryById (db_categories d) X = Some xc"
    and D: "findCategoryById (db_categories d) D = Some dc"
    and desc: "descendant (db_categories d) X dc"
    and ne: "D \<noteq> []"
    and par: "uc_parent data = Some (Some D)"
  shows "\<exists>m. updateCategory slugify slugOfName X data d = Some (Inl (AppError m 400), d)
             \<and> (uc_name data = None \<longrightarrow> m = (if D = X then SelfParent else CyclicParent))"
proof -
  have w: "walkAncestors (db_categories d) X dc = Some True"
    using desc by (rule walk_reaches_ancestor)
  show ?thesis
  proof (cases "uc_name data")
    case None
    then show ?thesis
      using X D ne par w by (simp add: updateCategory_def Let_def truthy_def)
  next
    case (Some n)
    then show ?thesis
      using X D ne par w by (simp add: updateCategory_def Let_def truthy_def)
  qed
qed

theorem cyclic_parent_rejected_witness:
  "findCategoryById (db_categories db1) ''k1'' = Some cat_root
   \<and> findCategoryById (db_categories db1) ''k3'' = Some cat_leaf
   \<and> descendant (db_categories db1) ''k1'' cat_leaf
   \<and> updateCategory id id ''k1'' (reparentDTO ''k3'') db1
       = Some (Inl (AppError CyclicParent 400), db1)"
proof -
  have X: "findCategoryById (db_categories db1) ''k1'' = Some cat_root"
    by (simp add: findCategoryById_def db1_def cat_root_def)
  have D: "findCategoryById (db_categories db1) ''k3'' = Some cat_leaf"
    by (simp add: findCategoryById_def db1_def cat_root_def cat_mid_def cat_leaf_def)
  have M: "findCategoryById (db_categories db1) ''k2'' = Some cat_mid"
    by (simp add: findCategoryById_def db1_def cat_root_def cat_mid_def)
  have mid: "descendant (db_categories db1) ''k1'' cat_mid"
    by (rule descendant.child) (simp add: cat_mid_def)
  have "cat_parentCategory cat_leaf = Some ''k2''" by (simp add: cat_leaf_def)
  then have desc: "descendant (db_categories db1) ''k1'' cat_leaf"
    using M mid by (rule descendant.below)
  have ne: "''k3'' \<noteq> []" by simp
  have par: "uc_parent (reparentDTO ''k3'') = Some (Some ''k3'')" by (simp add: reparentDTO_def)
  from cyclic_parent_rejected [OF X D desc ne par, of id id]
  show ?thesis using X D desc by (simp add: reparentDTO_def)
qed

section \<open>Creating a comment\<close>

lemma incCommentCount_other [simp]:
  "db_comments (incCommentCount pid k d) = db_comments d"
  "db_users (incCommentCount pid k d) = db_users d"
  "db_notifications (incCommentCount pid k d) = db_notifications d"
  by (simp_all add: incCommentCount_def)

lemma swallow_cases:
  "swallow r d = d \<or> (\<exists>d'. r = Inr d' \<and> swallow r d = d')"
  by (cases r) (simp_all add: swallow_def)

lemma createCommentNotification_keeps:
  "createCommentNotification ok a b c e d = Inr d' \<Longrightarrow>
     ok \<and> d'\<lparr>db_notifications := db_notifications d\<rparr> = d"
  by (auto simp: createCommentNotification_def split: if_splits)

lemma createReplyNotification_keeps:
  "createReplyNotification ok a b c e d = Inr d' \<Longrightarrow>
     ok \<and> d'\<lparr>db_notifications := db_notifications d\<rparr> = d"
  by (auto simp: createReplyNotification_def split: if_splits)

lemma createLikeCommentNotification_keeps:
  "createLikeCommentNotification ok a b c d = Inr d' \<Longrightarrow>
     ok \<and> d'\<lparr>db_notifications := db_notifications d\<rparr> = d"
  by (auto simp: createLikeCommentNotification_def split: if_splits option.splits)

lemma commentNotifications_keeps:
  assumes "commentNotifications ok post newId data d = Inr d'"
  shows "d'\<lparr>db_notifications := db_notifications d\<rparr> = d \<and> (\<not> ok \<longrightarrow> d' = d)"
proof (cases "truthy (dto_parentCommentId data)")
  case True
  with assms show ?thesis
    by (auto simp: commentNotifications_def split: if_splits option.splits
             dest!: createReplyNotification_keeps)
next
  case False
  with assms show ?thesis
    by (auto simp: commentNotifications_def split: if_splits sum.splits
             dest!: createCommentNotification_keeps)
qed

lemma swallow_commentNotifications:
  "(swallow (commentNotifications ok post newId data d) d)\<lparr>db_notifications := db_notifications d\<rparr> = d
   \<and> (\<not> ok \<longrightarrow> swallow (commentNotifications ok post newId data d) d = d)"
proof (cases "commentNotifications ok post newId data d")
  case (Inl e)
  then show ?thesis by (auto simp: swallow_def)
next
  case (Inr d')
  with commentNotifications_keeps[OF Inr] show ?thesis by (auto simp: swallow_def)
qed


lemma find_map_same_key:
  assumes "\<And>x. f (g x) = f x"
  shows "find (\<lambda>x. f x = i) (map g xs) = map_option g (find (\<lambda>x. f x = i) xs)"
  using assms by (induction xs) simp_all

lemma findPostById_incCommentCount:
  "findPostById (incCommentCount pid k d) i =
     map_option (\<lambda>p. if post_id p = pid then p\<lparr>post_commentCount := post_commentCount p + k\<rparr> else p)
       (findPostById d i)"
  unfolding findPostById_def incCommentCount_def
  by (simp add: find_map_same_key [where f = post_id])

lemma preSave_reply:
  assumes "findCommentById d pid = Some parent"
  shows "commentPreSaveNew (newComment newId now content postId authorId (Some pid)) d =
           ((newComment newId now content postId authorId (Some pid))
               \<lparr>comment_level := comment_level parent + 1,
                comment_path := (if comment_path parent \<noteq> [] then comment_path parent @ ''/'' @ pid else pid)\<rparr>,
            incCommentCount postId 1 d)"
  using assms by (simp add: commentPreSaveNew_def newComment_def)

lemma preSave_top:
  "commentPreSaveNew (newComment newId now content postId authorId None) d =
     (newComment newId now content postId authorId None, incCommentCount postId 1 d)"
  by (simp add: commentPreSaveNew_def newComment_def)

lemma createComment_top:
  assumes "findPostById d (dto_postId data) = Some post"
    and "userExists d (dto_authorId data)"
    and "\<not> truthy (dto_parentCommentId data)"
    and "validCommentContent (dto_content data)"
  shows "createComment ok now newId data d =
     (let c = newComment newId now (dto_content data) (dto_postId data) (dto_authorId data) None;
          d2 = (incCommentCount (dto_postId data) 1 d)\<lparr>db_comments := db_comments d @ [c]\<rparr>
      in (Inr c, swallow (commentNotifications ok post newId data d2) d2))"
  using assms by (simp add: createComment_def preSave_top Let_def)

lemma createComment_reply:
  assumes "findPostById d (dto_postId data) = Some post"
    and "userExists d (dto_authorId data)"
    and "dto_parentCommentId data = Some pid" and "pid \<noteq> []"
    and "findCommentById d pid = Some parent"
    and "validCommentContent (dto_content data)"
  shows "createComment ok now newId data d =
     (let c = (newComment newId now (dto_content data) (dto_postId data) (dto_authorId data) (Some pid))
               \<lparr>comment_level := comment_level parent + 1,
                comment_path := (if comment_path parent \<noteq> [] then comment_path parent @ ''/'' @ pid else pid)\<rparr>;
          d2 = (incCommentCount (dto_postId data) 1 d)\<lparr>db_comments := db_comments d @ [c]\<rparr>
      in (Inr c, swallow (commentNotifications ok post newId data d2) d2))"
  using assms by (simp add: createComment_def preSave_reply Let_def truthy_def)

text \<open>The validators at work on the small database: blank content is refused, padded content is stored trimmed.\<close>

lemma createComment_blank_content:
  "createComment ok 9 ''a'' (topLevelDTO\<lparr>dto_content := [CHR 0x20, CHR 0x09]\<rparr>) db1
     = (Inl ValidationError, db1)"
  by (simp add: createComment_def findPostById_def userExists_def truthy_def
        validCommentContent_def jsTrim_def isSpace_def db1_def post1_def topLevelDTO_def)

lemma createComment_padded_content:
  "fst (createComment False 9 ''a'' (topLevelDTO\<lparr>dto_content := '' A ''\<rparr>) db1)
     = Inr (newComment ''a'' 9 ''A'' ''p1'' ''u2'' None)"
  by (simp add: createComment_def findPostById_def userExists_def truthy_def Let_def
        validCommentContent_def jsTrim_def isSpace_def commentPreSaveNew_def newComment_def
        db1_def post1_def topLevelDTO_def)

lemma findPostById_comments_update [simp]:
  "findPostById (d\<lparr>db_comments := cs\<rparr>) i = findPostById d i"
  by (simp add: findPostById_def)

text \<open>
  Every call of \<open>createComment\<close> either throws one of its own errors before any write,
  whatever happens to notifications, or stores one comment: the new document, with level
  and path from the parent it names, appended after the comments there were, the counter
  of the post incremented, and then the notifications tried.
\<close>

lemma createComment_shape:
  "(\<exists>e. e \<noteq> InternalFailure \<and> (\<forall>ok. createComment ok now newId data d = (Inl e, d)))
   \<or> (\<exists>c post. createdRight d newId data c
         \<and> findPostById d (dto_postId data) = Some post
         \<and> (\<forall>ok. createComment ok now newId data d =
               (Inr c, swallow (commentNotifications ok post newId data
                          ((incCommentCount (dto_postId data) 1 d)\<lparr>db_comments := db_comments d @ [c]\<rparr>))
                        ((incCommentCount (dto_postId data) 1 d)\<lparr>db_comments := db_comments d @ [c]\<rparr>))))"
proof (cases "findPostById d (dto_postId data)")
  case None
  then show ?thesis by (intro disjI1) (simp add: createComment_def)
next
  case (Some post)
  show ?thesis
  proof (cases "userExists d (dto_authorId data)")
    case False
    with Some show ?thesis by (intro disjI1) (simp add: createComment_def)
  next
    case user: True
    show ?thesis
    proof (cases "validCommentContent (dto_content data)")
      case valid: True
      show ?thesis
      proof (cases "truthy (dto_parentCommentId data)")
        case False
        let ?c = "newComment newId now (dto_content data) (dto_postId data) (dto_authorId data) None"
        have "createdRight d newId data ?c"
          by (simp add: createdRight_def newComment_def)
        moreover have "\<forall>ok. createComment ok now newId data d =
               (Inr ?c, swallow (commentNotifications ok post newId data
                          ((incCommentCount (dto_postId data) 1 d)\<lparr>db_comments := db_comments d @ [?c]\<rparr>))
                        ((incCommentCount (dto_postId data) 1 d)\<lparr>db_comments := db_comments d @ [?c]\<rparr>))"
          using createComment_top[OF Some user False valid] by (simp add: Let_def)
        ultimately show ?thesis using Some by blast
      next
        case t: True
        then obtain pc where pc: "dto_parentCommentId data = Some pc" "pc \<noteq> []"
          by (auto simp: truthy_def split: option.splits)
        show ?thesis
        proof (cases "findCommentById d pc")
          case None
          with Some user t pc show ?thesis by (intro disjI1) (simp add: createComment_def)
        next
          case par: (Some parent)
          let ?c = "(newComment newId now (dto_content data) (dto_postId data) (dto_authorId data) (Some pc))
               \<lparr>comment_level := comment_level parent + 1,
                comment_path := (if comment_path parent \<noteq> [] then comment_path parent @ ''/'' @ pc else pc)\<rparr>"
          have "createdRight d newId data ?c"
            using par by (simp add: createdRight_def newComment_def)
          moreover have "\<forall>ok. createComment ok now newId data d =
               (Inr ?c, swallow (commentNotifications ok post newId data
                          ((incCommentCount (dto_postId data) 1 d)\<lparr>db_comments := db_comments d @ [?c]\<rparr>))
                        ((incCommentCount (dto_postId data) 1 d)\<lparr>db_comments := db_comments d @ [?c]\<rparr>))"
            using createComment_reply[OF Some user pc par valid] by (simp add: Let_def)
          ultimately show ?thesis using Some by blast
        qed
      qed
    next
      case False
      show ?thesis
      proof (cases "truthy (dto_parentCommentId data)
                      \<and> findCommentById d (the (dto_parentCommentId data)) = None")
        case True
        with Some user show ?thesis by (intro disjI1) (simp add: createComment_def)
      next
        case np: False
        have "\<forall>ok. createComment ok now newId data d = (Inl ValidationError, d)"
          using Some user np False by (simp add: createComment_def)
        then show ?thesis by (intro disjI1) blast
      qed
    qed
  qed
qed

lemma createComment_without_notifications:
  "fst (createComment False now newId data d) = fst (createComment True now newId data d)
   \<and> snd (createComment False now newId data d)
       = (snd (createComment True now newId data d))\<lparr>db_notifications := db_notifications d\<rparr>
   \<and> fst (createComment False now newId data d) \<noteq> Inl InternalFailure"
proof -
  from createComment_shape[of now newId data d]
  consider (err) e where "e \<noteq> InternalFailure" "\<forall>ok. createComment ok now newId data d = (Inl e, d)"
    | (made) c post where
        "\<forall>ok. createComment ok now newId data d =
               (Inr c, swallow (commentNotifications ok post newId data
                          ((incCommentCount (dto_postId data) 1 d)\<lparr>db_comments := db_comments d @ [c]\<rparr>))
                        ((incCommentCount (dto_postId data) 1 d)\<lparr>db_comments := db_comments d @ [c]\<rparr>))"
    by blast
  then show ?thesis
  proof cases
    case err
    then show ?thesis by simp
  next
    case (made c post)
    let ?d2 = "(incCommentCount (dto_postId data) 1 d)\<lparr>db_comments := db_comments d @ [c]\<rparr>"
    from swallow_commentNotifications[where ok=False and post=post and newId=newId and data=data and d="?d2"]
    have f: "swallow (commentNotifications False post newId data ?d2) ?d2 = ?d2" by simp
    from swallow_commentNotifications[where ok=True and post=post and newId=newId and data=data and d="?d2"]
    have t: "(swallow (commentNotifications True post newId data ?d2) ?d2)
                \<lparr>db_notifications := db_notifications d\<rparr> = ?d2" by simp
    from made f t show ?thesis by simp
  qed
qed

text \<open>
  C9. Refusing every write of a notification changes neither what \<open>createComment\<close>
  returns nor what it commits: the outcome is the one of the run in which notifications
  are written, the database is that run's database without the new notifications, and
  the failure of the notification is never the error the caller gets. And when the post
  and the author exist, the parent comment too when one is named, and the content is
  valid (so that the comment is created and a notification can be tried at all),
  \<open>createComment\<close> with every notification refused returns the created comment; the
  database it leaves is the old one with the comment appended and the post's counter
  incremented, and the post found afterwards carries the counter plus one.
\<close>

theorem notification_failure_isolated:
  "fst (createComment False now newId data d) = fst (createComment True now newId data d)
   \<and> snd (createComment False now newId data d)
       = (snd (createComment True now newId data d))\<lparr>db_notifications := db_notifications d\<rparr>
   \<and> fst (createComment False now newId data d) \<noteq> Inl InternalFailure
   \<and> (findPostById d (dto_postId data) = Some post \<longrightarrow> userExists d (dto_authorId data)
      \<longrightarrow> (truthy (dto_parentCommentId data) \<longrightarrow>
             findCommentById d (the (dto_parentCommentId data)) \<noteq> None)
      \<longrightarrow> validCommentContent (dto_content data)
      \<longrightarrow> (\<exists>c. createComment False now newId data d
                   = (Inr c, (incCommentCount (dto_postId data) 1 d)
                               \<lparr>db_comments := db_comments d @ [c]\<rparr>)
              \<and> comment_id c = newId \<and> comment_content c = jsTrim (dto_content data)
              \<and> comment_post c = dto_postId data \<and> comment_author c = dto_authorId data
              \<and> findPostById (snd (createComment False now newId data d)) (dto_postId data)
                  = Some (post\<lparr>post_commentCount := post_commentCount post + 1\<rparr>)))"
proof (intro conjI impI)
  show "fst (createComment False now newId data d) = fst (createComment True now newId data d)"
    using createComment_without_notifications by blast
  show "snd (createComment False now newId data d)
       = (snd (createComment True now newId data d))\<lparr>db_notifications := db_notifications d\<rparr>"
    using createComment_without_notifications by blast
  show "fst (createComment False now newId data d) \<noteq> Inl InternalFailure"
    using createComment_without_notifications by blast
next
  assume post: "findPostById d (dto_postId data) = Some post"
    and user: "userExists d (dto_authorId data)"
    and parent: "truthy (dto_parentCommentId data) \<longrightarrow>
                   findCommentById d (the (dto_parentCommentId data)) \<noteq> None"
    and valid: "validCommentContent (dto_content data)"
  have pid: "post_id post = dto_postId data"
    using post by (auto simp: findPostById_def find_Some_iff)
  from createComment_shape[of now newId data d]
  consider (err) e where "\<forall>ok. createComment ok now newId data d = (Inl e, d)"
    | (made) c post' where "createdRight d newId data c"
        "\<forall>ok. createComment ok now newId data d =
               (Inr c, swallow (commentNotifications ok post' newId data
                          ((incCommentCount (dto_postId data) 1 d)\<lparr>db_comments := db_comments d @ [c]\<rparr>))
                        ((incCommentCount (dto_postId data) 1 d)\<lparr>db_comments := db_comments d @ [c]\<rparr>))"
    by blast
  then show "\<exists>c. createComment False now newId data d
                   = (Inr c, (incCommentCount (dto_postId data) 1 d)
                               \<lparr>db_comments := db_comments d @ [c]\<rparr>)
              \<and> comment_id c = newId \<and> comment_content c = jsTrim (dto_content data)
              \<and> comment_post c = dto_postId data \<and> comment_author c = dto_authorId data
              \<and> findPostById (snd (createComment False now newId data d)) (dto_postId data)
                  = Some (post\<lparr>post_commentCount := post_commentCount post + 1\<rparr>)"
  proof cases
    case err
    then have "fst (createComment False now newId data d) = Inl e" by simp
    moreover have "\<exists>c. fst (createComment False now newId data d) = Inr c"
    proof (cases "truthy (dto_parentCommentId data)")
      case False
      from createComment_top[OF post user False valid, where ok=False and now=now and newId=newId]
      show ?thesis by (simp add: Let_def)
    next
      case True
      then obtain pc where pc: "dto_parentCommentId data = Some pc" "pc \<noteq> []"
        by (auto simp: truthy_def split: option.splits)
      with parent True obtain par where par: "findCommentById d pc = Some par" by auto
      from createComment_reply[OF post user pc par valid, where ok=False and now=now and newId=newId]
      show ?thesis by (simp add: Let_def)
    qed
    ultimately show ?thesis by auto
  next
    case (made c post')
    let ?d2 = "(incCommentCount (dto_postId data) 1 d)\<lparr>db_comments := db_comments d @ [c]\<rparr>"
    from swallow_commentNotifications[where ok=False and post=post' and newId=newId and data=data and d="?d2"]
    have "swallow (commentNotifications False post' newId data ?d2) ?d2 = ?d2" by simp
    with made(2) have f: "createComment False now newId data d = (Inr c, ?d2)" by simp
    have p: "findPostById ?d2 (dto_postId data)
               = Some (post\<lparr>post_commentCount := post_commentCount post + 1\<rparr>)"
      using post pid by (simp add: findPostById_incCommentCount)
    from made(1) have "comment_id c = newId \<and> comment_content c = jsTrim (dto_content data)
              \<and> comment_post c = dto_postId data \<and> comment_author c = dto_authorId data"
      by (simp add: createdRight_def)
    with f p show ?thesis by (intro exI[of _ c]) simp
  qed
qed

theorem notification_failure_isolated_witness:
  "findPostById db1 (dto_postId topLevelDTO) = Some post1
   \<and> userExists db1 (dto_authorId topLevelDTO)
   \<and> validCommentContent (dto_content topLevelDTO)
   \<and> createCommentNotification False ''p1'' ''a'' ''u2'' ''u1'' db1 = Inl InternalFailure
   \<and> fst (createComment False 9 ''a'' topLevelDTO db1)
        = Inr (newComment ''a'' 9 ''A'' ''p1'' ''u2'' None)
   \<and> map comment_id (db_comments (snd (createComment False 9 ''a'' topLevelDTO db1))) = [''c1'', ''a'']
   \<and> map post_commentCount (db_posts (snd (createComment False 9 ''a'' topLevelDTO db1))) = [2]
   \<and> db_notifications (snd (createComment False 9 ''a'' topLevelDTO db1)) = []"
proof -
  have post: "findPostById db1 (dto_postId topLevelDTO) = Some post1"
    by (simp add: findPostById_def db1_def topLevelDTO_def post1_def)
  have user: "userExists db1 (dto_authorId topLevelDTO)"
    by (simp add: userExists_def db1_def topLevelDTO_def)
  have parent: "truthy (dto_parentCommentId topLevelDTO) \<longrightarrow>
                   findCommentById db1 (the (dto_parentCommentId topLevelDTO)) \<noteq> None"
    by (simp add: truthy_def topLevelDTO_def)
  have valid: "validCommentContent (dto_content topLevelDTO)"
    by (simp add: validCommentContent_def jsTrim_def isSpace_def topLevelDTO_def)
  have n: "createCommentNotification False ''p1'' ''a'' ''u2'' ''u1'' db1 = Inl InternalFailure"
    by (simp add: createCommentNotification_def userExists_def findPostById_def db1_def post1_def)
  from notification_failure_isolated [where d=db1 and data=topLevelDTO and post=post1
         and now=9 and newId="''a''"] post user parent valid
  obtain c where c: "createComment False 9 ''a'' topLevelDTO db1
               = (Inr c, (incCommentCount (dto_postId topLevelDTO) 1 db1)\<lparr>db_comments := db_comments db1 @ [c]\<rparr>)"
     and i: "comment_id c = ''a''"
    by blast
  then have e: "c = newComment ''a'' 9 ''A'' ''p1'' ''u2'' None"
    using createComment_top[OF post user _ valid, where ok=False and now=9 and newId="''a''"]
    by (simp add: truthy_def topLevelDTO_def Let_def)
  show ?thesis
    using post user valid n c i e
    by (simp add: incCommentCount_def db1_def post1_def comment1_def topLevelDTO_def)
qed

section \<open>Level and path of a comment\<close>

lemma swallow_commentNotifications_comments:
  "db_comments (swallow (commentNotifications ok post newId data d) d) = db_comments d"
proof -
  have "db_comments ((swallow (commentNotifications ok post newId data d) d)
            \<lparr>db_notifications := db_notifications d\<rparr>) = db_comments d"
    using swallow_commentNotifications[where ok=ok and post=post and newId=newId and data=data and d=d] by simp
  then show ?thesis by simp
qed

lemma saveComment_positions:
  assumes dist: "distinct (map comment_id (db_comments d))"
    and f: "findCommentById d i = Some x"
    and tp: "treePosition c = treePosition x"
  shows "map treePosition (db_comments (saveComment c d)) = map treePosition (db_comments d)"
proof -
  from f have xin: "x \<in> set (db_comments d)"
    by (auto simp: findCommentById_def find_Some_iff)
  from tp have idc: "comment_id c = comment_id x" by (simp add: treePosition_def)
  have "\<And>y. y \<in> set (db_comments d) \<Longrightarrow> comment_id y = comment_id c \<Longrightarrow> y = x"
    using dist xin idc by (metis distinct_map inj_onD)
  then have "\<And>y. y \<in> set (db_comments d) \<Longrightarrow>
               treePosition (if comment_id y = comment_id c then c else y) = treePosition y"
    using tp by auto
  then show ?thesis by (simp add: saveComment_def)
qed

lemma swallow_like_comments:
  "db_comments (swallow (createLikeCommentNotification ok a b c d) d) = db_comments d"
proof (cases "createLikeCommentNotification ok a b c d")
  case (Inl e)
  then show ?thesis by (simp add: swallow_def)
next
  case (Inr d')
  from createLikeCommentNotification_keeps[OF Inr]
  have "db_comments (d'\<lparr>db_notifications := db_notifications d\<rparr>) = db_comments d" by simp
  with Inr show ?thesis by (simp add: swallow_def)
qed

lemma createComment_result:
  "(\<exists>e. createComment ok now newId data d = (Inl e, d))
   \<or> (\<exists>c. fst (createComment ok now newId data d) = Inr c \<and> createdRight d newId data c
          \<and> db_comments (snd (createComment ok now newId data d)) = db_comments d @ [c])"
proof -
  from createComment_shape[of now newId data d]
  consider (err) e where "\<forall>ok. createComment ok now newId data d = (Inl e, d)"
    | (made) c post where "createdRight d newId data c"
        "\<forall>ok. createComment ok now newId data d =
               (Inr c, swallow (commentNotifications ok post newId data
                          ((incCommentCount (dto_postId data) 1 d)\<lparr>db_comments := db_comments d @ [c]\<rparr>))
                        ((incCommentCount (dto_postId data) 1 d)\<lparr>db_comments := db_comments d @ [c]\<rparr>))"
    by blast
  then show ?thesis
  proof cases
    case err
    then show ?thesis by blast
  next
    case (made c post)
    from made(2) have "fst (createComment ok now newId data d) = Inr c"
      and "db_comments (snd (createComment ok now newId data d)) = db_comments d @ [c]"
      by (simp_all add: swallow_commentNotifications_comments)
    with made(1) show ?thesis by blast
  qed
qed

lemma createComment_comments:
  "db_comments (snd (createComment ok now newId data d)) = db_comments d
   \<or> (\<exists>c. comment_id c = newId \<and> comment_likes c = [] \<and> comment_likeCount c = 0
          \<and> db_comments (snd (createComment ok now newId data d)) = db_comments d @ [c])"
proof -
  from createComment_result[of ok now newId data d]
  consider e where "createComment ok now newId data d = (Inl e, d)"
    | c where "createdRight d newId data c"
        "db_comments (snd (createComment ok now newId data d)) = db_comments d @ [c]"
    by blast
  then show ?thesis
  proof cases
    case 1
    then show ?thesis by simp
  next
    case (2 c)
    from 2(1) have "comment_id c = newId \<and> comment_likes c = [] \<and> comment_likeCount c = 0"
      by (simp add: createdRight_def)
    with 2(2) show ?thesis by blast
  qed
qed

lemma applyCommentOp_positions:
  assumes dist: "distinct (map comment_id (db_comments d))"
  shows "map treePosition (db_comments (applyCommentOp now c d)) = map treePosition (db_comments d)
         \<or> (\<exists>x. comment_id x \<in> set (newIds [(now, c)])
               \<and> db_comments (applyCommentOp now c d) = db_comments d @ [x])"
proof (cases c)
  case (CreateCommentOp ok newId data)
  with createComment_comments[of ok now newId data d] show ?thesis by auto
next
  case (UpdateCommentOp commentId authorId content)
  then show ?thesis
    using dist
    by (auto simp: updateComment_def Let_def treePosition_def split: option.splits
             intro!: saveComment_positions)
next
  case (DeleteCommentOp commentId userId isAdmin)
  then show ?thesis
    using dist
    by (auto simp: deleteComment_def Let_def treePosition_def split: option.splits
             intro!: saveComment_positions)
next
  case (LikeCommentOp ok commentId userId)
  then show ?thesis
    using dist
    by (auto simp: likeComment_def Let_def treePosition_def swallow_like_comments
             split: option.splits intro!: saveComment_positions)
next
  case (UnlikeCommentOp commentId userId)
  then show ?thesis
    using dist
    by (auto simp: unlikeComment_def Let_def treePosition_def split: option.splits
             intro!: saveComment_positions)
next
  case (ModerateCommentOp commentId isApproved)
  then show ?thesis
    using dist
    by (auto simp: moderateComment_def Let_def treePosition_def split: option.splits
             intro!: saveComment_positions)
next
  case (HighlightCommentOp commentId isHighlighted)
  then show ?thesis
    using dist
    by (auto simp: highlightComment_def Let_def treePosition_def split: option.splits
             intro!: saveComment_positions)
qed


lemma ids_of_positions:
  "map comment_id xs = map fst (map treePosition xs)"
  by (simp add: treePosition_def)

lemma newIds_single:
  "i \<in> set (newIds [(now, c)]) \<Longrightarrow> newIds ((now, c) # ops) = i # newIds ops"
  by (cases c) simp_all

lemma newIds_tail:
  "set (newIds ops) \<subseteq> set (newIds ((now, c) # ops)) \<and> (distinct (newIds ((now, c) # ops)) \<longrightarrow> distinct (newIds ops))"
  by (cases c) auto

lemma runCommentOps_positions:
  "distinct (map comment_id (db_comments d) @ newIds ops) \<Longrightarrow>
   take (length (db_comments d)) (map treePosition (db_comments (runCommentOps ops d)))
     = map treePosition (db_comments d)"
proof (induction ops arbitrary: d)
  case Nil
  then show ?case by simp
next
  case (Cons a ops)
  obtain now c where a: "a = (now, c)" by (cases a)
  let ?d' = "applyCommentOp now c d"
  from Cons.prems have dist: "distinct (map comment_id (db_comments d))" by simp
  from applyCommentOp_positions[OF dist, of now c]
  consider (same) "map treePosition (db_comments ?d') = map treePosition (db_comments d)"
    | (grown) x where "comment_id x \<in> set (newIds [(now, c)])"
        "db_comments ?d' = db_comments d @ [x]"
    by blast
  then show ?case
  proof cases
    case same
    then have ids: "map comment_id (db_comments ?d') = map comment_id (db_comments d)"
      by (simp add: ids_of_positions)
    from same have len: "length (db_comments ?d') = length (db_comments d)"
      by (metis length_map)
    have "distinct (map comment_id (db_comments ?d') @ newIds ops)"
      using Cons.prems newIds_tail[of ops now c] unfolding ids a by auto
    from Cons.IH[OF this] show ?thesis
      using same len a by simp
  next
    case grown
    then have n: "newIds (a # ops) = comment_id x # newIds ops"
      using newIds_single a by simp
    have "distinct (map comment_id (db_comments ?d') @ newIds ops)"
      using Cons.prems grown(2) n by simp
    from Cons.IH[OF this]
    have "take (Suc (length (db_comments d))) (map treePosition (db_comments (runCommentOps ops ?d')))
            = map treePosition (db_comments d) @ [treePosition x]"
      using grown(2) by simp
    then have "take (length (db_comments d))
                 (take (Suc (length (db_comments d))) (map treePosition (db_comments (runCommentOps ops ?d'))))
            = take (length (db_comments d)) (map treePosition (db_comments d) @ [treePosition x])"
      by simp
    then show ?thesis using a by (simp add: min_def)
  qed
qed

text \<open>
  C6. Whatever the input, a comment that \<open>createComment\<close> returns is stored after the
  comments there were, and it has level 1 and the empty path when it has no parent, and
  otherwise the level of its parent, which is found, plus one and the parent's path
  followed by the parent's id (the id alone under a top-level parent). The create succeeds
  with these values when the post and the author exist, the content is valid and either
  no parent is named or the named parent is found. And along any run of comment
  operations (create, edit, soft-delete, like, unlike, moderate, highlight) on a
  collection with unique ids, where created comments get fresh ids, every comment already
  stored keeps its id, level and path.
\<close>

theorem comment_level_and_path:
  "(fst (createComment ok now newId data d) = Inr c
      \<longrightarrow> db_comments (snd (createComment ok now newId data d)) = db_comments d @ [c]
          \<and> (case comment_parentComment c of
                None \<Rightarrow> comment_level c = 1 \<and> comment_path c = []
              | Some q \<Rightarrow>
                  (\<exists>p. findCommentById d q = Some p
                       \<and> comment_level c = comment_level p + 1
                       \<and> comment_path c = (if comment_path p = [] then q
                                            else comment_path p @ ''/'' @ q))))
   \<and> (findPostById d (dto_postId data) = Some post \<longrightarrow> userExists d (dto_authorId data)
      \<longrightarrow> \<not> truthy (dto_parentCommentId data)
      \<longrightarrow> validCommentContent (dto_content data)
      \<longrightarrow> (\<exists>c. fst (createComment ok now newId data d) = Inr c
              \<and> comment_parentComment c = None \<and> comment_level c = 1 \<and> comment_path c = []
              \<and> db_comments (snd (createComment ok now newId data d)) = db_comments d @ [c]))
   \<and> (findPostById d (dto_postId data) = Some post \<longrightarrow> userExists d (dto_authorId data)
      \<longrightarrow> dto_parentCommentId data = Some pid \<longrightarrow> pid \<noteq> []
      \<longrightarrow> findCommentById d pid = Some parent
      \<longrightarrow> validCommentContent (dto_content data)
      \<longrightarrow> (\<exists>c. fst (createComment ok now newId data d) = Inr c
              \<and> comment_parentComment c = Some pid
              \<and> comment_level c = comment_level parent + 1
              \<and> comment_path c = (if comment_path parent = [] then pid
                                   else comment_path parent @ ''/'' @ pid)
              \<and> db_comments (snd (createComment ok now newId data d)) = db_comments d @ [c]))
   \<and> (distinct (map comment_id (db_comments d) @ newIds ops)
      \<longrightarrow> take (length (db_comments d)) (map treePosition (db_comments (runCommentOps ops d)))
            = map treePosition (db_comments d))"
proof (intro conjI impI)
  assume r: "fst (createComment ok now newId data d) = Inr c"
  from createComment_result[of ok now newId data d] r
  have cr: "createdRight d newId data c"
    and cs: "db_comments (snd (createComment ok now newId data d)) = db_comments d @ [c]"
    by auto
  show "db_comments (snd (createComment ok now newId data d)) = db_comments d @ [c]"
    by (rule cs)
  show "case comment_parentComment c of
                None \<Rightarrow> comment_level c = 1 \<and> comment_path c = []
              | Some q \<Rightarrow>
                  (\<exists>p. findCommentById d q = Some p
                       \<and> comment_level c = comment_level p + 1
                       \<and> comment_path c = (if comment_path p = [] then q
                                            else comment_path p @ ''/'' @ q))"
    using cr by (auto simp: createdRight_def split: option.splits)
next
  assume "findPostById d (dto_postId data) = Some post" "userExists d (dto_authorId data)"
    "\<not> truthy (dto_parentCommentId data)" "validCommentContent (dto_content data)"
  from createComment_top[OF this, where ok=ok and now=now and newId=newId]
  show "\<exists>c. fst (createComment ok now newId data d) = Inr c
              \<and> comment_parentComment c = None \<and> comment_level c = 1 \<and> comment_path c = []
              \<and> db_comments (snd (createComment ok now newId data d)) = db_comments d @ [c]"
    by (simp add: Let_def swallow_commentNotifications_comments newComment_def)
next
  assume "findPostById d (dto_postId data) = Some post" "userExists d (dto_authorId data)"
    "dto_parentCommentId data = Some pid" "pid \<noteq> []" "findCommentById d pid = Some parent"
    "validCommentContent (dto_content data)"
  from createComment_reply[OF this, where ok=ok and now=now and newId=newId]
  show "\<exists>c. fst (createComment ok now newId data d) = Inr c
              \<and> comment_parentComment c = Some pid
              \<and> comment_level c = comment_level parent + 1
              \<and> comment_path c = (if comment_path parent = [] then pid
                                   else comment_path parent @ ''/'' @ pid)
              \<and> db_comments (snd (createComment ok now newId data d)) = db_comments d @ [c]"
    by (simp add: Let_def swallow_commentNotifications_comments newComment_def)
next
  assume "distinct (map comment_id (db_comments d) @ newIds ops)"
  then show "take (length (db_comments d)) (map treePosition (db_comments (runCommentOps ops d)))
            = map treePosition (db_comments d)"
    by (rule runCommentOps_positions)
qed

section \<open>The thread scenario, evaluated\<close>

lemma dbA_eval:
  "dbA = db1\<lparr>db_posts := [post1\<lparr>post_commentCount := 2\<rparr>],
             db_comments := [comment1, commentA],
             db_notifications := [\<lparr>notif_recipient = ''u1'', notif_sender = Some ''u2'',
               notif_type = COMMENT, notif_relatedPost = Some ''p1'',
               notif_relatedComment = Some ''a'', notif_isRead = False\<rparr>]\<rparr>"
  by (simp add: Let_def dbA_def createComment_def findPostById_def userExists_def truthy_def
        validCommentContent_def jsTrim_def isSpace_def commentPreSaveNew_def incCommentCount_def commentNotifications_def
        createCommentNotification_def swallow_def newComment_def commentA_def
        db1_def post1_def comment1_def topLevelDTO_def)

lemma dbAB_eval:
  "dbAB = db1\<lparr>db_posts := [post1\<lparr>post_commentCount := 3\<rparr>],
             db_comments := [comment1, commentA, commentB],
             db_notifications := [\<lparr>notif_recipient = ''u1'', notif_sender = Some ''u2'',
               notif_type = COMMENT, notif_relatedPost = Some ''p1'',
               notif_relatedComment = Some ''a'', notif_isRead = False\<rparr>,
               \<lparr>notif_recipient = ''u2'', notif_sender = Some ''u1'',
               notif_type = REPLY, notif_relatedPost = Some ''p1'',
               notif_relatedComment = Some ''b'', notif_isRead = False\<rparr>]\<rparr>"
  unfolding dbAB_def dbA_eval
  by (simp add: Let_def createComment_def findPostById_def findCommentById_def userExists_def truthy_def
        validCommentContent_def jsTrim_def isSpace_def commentPreSaveNew_def incCommentCount_def commentNotifications_def
        createReplyNotification_def swallow_def newComment_def commentA_def commentB_def
        db1_def post1_def comment1_def replyDTO_def)

lemma dbABdel_eval:
  "dbABdel = dbAB\<lparr>db_posts := [post1\<lparr>post_commentCount := 2\<rparr>],
             db_comments := [comment1, commentA\<lparr>comment_isDeleted := True, comment_deletedAt := Some 3\<rparr>, commentB]\<rparr>"
  unfolding dbABdel_def dbAB_eval
  by (simp add: Let_def deleteComment_def findCommentById_def saveComment_def incCommentCount_def
        newComment_def commentA_def commentB_def db1_def post1_def comment1_def)

theorem comment_level_and_path_witness:
  "findPostById db1 (dto_postId topLevelDTO) = Some post1
   \<and> userExists db1 (dto_authorId topLevelDTO) \<and> \<not> truthy (dto_parentCommentId topLevelDTO)
   \<and> validCommentContent (dto_content topLevelDTO)
   \<and> validCommentContent (dto_content (replyDTO ''a''))
   \<and> db_comments dbA = db_comments db1 @ [commentA]
   \<and> comment_level commentA = 1 \<and> comment_path commentA = []
   \<and> findPostById dbA (dto_postId (replyDTO ''a'')) = Some (post1\<lparr>post_commentCount := 2\<rparr>)
   \<and> userExists dbA (dto_authorId (replyDTO ''a''))
   \<and> findCommentById dbA ''a'' = Some commentA
   \<and> db_comments dbAB = db_comments dbA @ [commentB]
   \<and> comment_level commentB = 2 \<and> comment_path commentB = ''a''
   \<and> distinct (map comment_id (db_comments dbAB) @ newIds [(3, DeleteCommentOp ''a'' ''u2'' False)])
   \<and> map comment_isDeleted (db_comments (runCommentOps [(3, DeleteCommentOp ''a'' ''u2'' False)] dbAB))
        = [False, True, False]
   \<and> map treePosition (db_comments (runCommentOps [(3, DeleteCommentOp ''a'' ''u2'' False)] dbAB))
        = [(''c1'', 1, []), (''a'', 1, []), (''b'', 2, ''a'')]"
proof -
  have p1: "findPostById db1 (dto_postId topLevelDTO) = Some post1"
    by (simp add: findPostById_def db1_def topLevelDTO_def post1_def)
  have u1: "userExists db1 (dto_authorId topLevelDTO)"
    by (simp add: userExists_def db1_def topLevelDTO_def)
  have n1: "\<not> truthy (dto_parentCommentId topLevelDTO)"
    by (simp add: truthy_def topLevelDTO_def)
  have v1: "validCommentContent (dto_content topLevelDTO)"
    by (simp add: validCommentContent_def jsTrim_def isSpace_def topLevelDTO_def)
  have v2: "validCommentContent (dto_content (replyDTO ''a''))"
    by (simp add: validCommentContent_def jsTrim_def isSpace_def replyDTO_def)
  have p2: "findPostById dbA (dto_postId (replyDTO ''a'')) = Some (post1\<lparr>post_commentCount := 2\<rparr>)"
    by (simp add: dbA_eval findPostById_def replyDTO_def post1_def)
  have u2: "userExists dbA (dto_authorId (replyDTO ''a''))"
    by (simp add: dbA_eval userExists_def db1_def replyDTO_def)
  have par: "dto_parentCommentId (replyDTO ''a'') = Some ''a''" "''a'' \<noteq> []"
    by (simp_all add: replyDTO_def)
  have f2: "findCommentById dbA ''a'' = Some commentA"
    by (simp add: dbA_eval findCommentById_def comment1_def commentA_def newComment_def)
  have dist: "distinct (map comment_id (db_comments dbAB) @ newIds [(3, DeleteCommentOp ''a'' ''u2'' False)])"
    by (simp add: dbAB_eval comment1_def commentA_def commentB_def newComment_def)
  have run: "runCommentOps [(3, DeleteCommentOp ''a'' ''u2'' False)] dbAB = dbABdel"
    by (simp add: dbABdel_def)
  from comment_level_and_path [where d=db1 and data=topLevelDTO and post=post1 and ok=True
         and now=1 and newId="''a''", THEN conjunct2, THEN conjunct1] p1 u1 n1 v1
  have a: "\<exists>c. fst (createComment True 1 ''a'' topLevelDTO db1) = Inr c
              \<and> comment_parentComment c = None \<and> comment_level c = 1 \<and> comment_path c = []
              \<and> db_comments (snd (createComment True 1 ''a'' topLevelDTO db1)) = db_comments db1 @ [c]"
    by simp
  from comment_level_and_path [where d=dbA and data="replyDTO ''a''"
         and post="post1\<lparr>post_commentCount := 2\<rparr>" and ok=True and now=2 and newId="''b''"
         and pid="''a''" and parent=commentA, THEN conjunct2, THEN conjunct2, THEN conjunct1]
       p2 u2 par f2 v2
  have b: "\<exists>c. fst (createComment True 2 ''b'' (replyDTO ''a'') dbA) = Inr c
              \<and> comment_parentComment c = Some ''a''
              \<and> comment_level c = comment_level commentA + 1
              \<and> comment_path c = (if comment_path commentA = [] then ''a''
                                   else comment_path commentA @ ''/'' @ ''a'')
              \<and> db_comments (snd (createComment True 2 ''b'' (replyDTO ''a'') dbA)) = db_comments dbA @ [c]"
    by simp
  from comment_level_and_path [where d=dbAB and ops="[(3, DeleteCommentOp ''a'' ''u2'' False)]",
         THEN conjunct2, THEN conjunct2, THEN conjunct2] dist
  have c: "take (length (db_comments dbAB))
             (map treePosition (db_comments (runCommentOps [(3, DeleteCommentOp ''a'' ''u2'' False)] dbAB)))
           = map treePosition (db_comments dbAB)"
    by simp
  have cs1: "db_comments db1 = [comment1]" by (simp add: db1_def)
  have csA: "db_comments dbA = [comment1, commentA]" by (simp add: dbA_eval)
  have csAB: "db_comments dbAB = [comment1, commentA, commentB]" by (simp add: dbAB_eval)
  have ca: "comment_level commentA = 1 \<and> comment_path commentA = []"
    using a unfolding dbA_def[symmetric] csA cs1 by auto
  have cb: "comment_level commentB = 2 \<and> comment_path commentB = ''a''"
    using b ca unfolding dbAB_def[symmetric] csAB csA by auto
  have tp: "map treePosition (db_comments (runCommentOps [(3, DeleteCommentOp ''a'' ''u2'' False)] dbAB))
        = [(''c1'', 1, []), (''a'', 1, []), (''b'', 2, ''a'')]"
    using c ca cb unfolding run
    by (simp add: dbABdel_eval dbAB_eval treePosition_def comment1_def commentA_def commentB_def newComment_def)
  have del: "map comment_isDeleted (db_comments dbABdel) = [False, True, False]"
    by (simp add: dbABdel_eval comment1_def commentA_def commentB_def newComment_def)
  show ?thesis
    using p1 u1 n1 v1 v2 p2 u2 f2 dist ca cb tp del[unfolded dbABdel_def]
    by (simp add: cs1 csA csAB)
qed

section \<open>Soft delete and the listings\<close>

lemma find_append_list:
  "find P (xs @ ys) = (case find P xs of None \<Rightarrow> find P ys | Some x \<Rightarrow> Some x)"
  by (induction xs) simp_all

lemma find_map_unchanged:
  "(\<And>x. x \<in> set xs \<Longrightarrow> P (g x) = P x \<and> (P x \<longrightarrow> g x = x)) \<Longrightarrow> find P (map g xs) = find P xs"
  by (induction xs) auto

lemma paginate_subset:
  "paginate page limit xs = Inr ys \<Longrightarrow> set ys \<subseteq> set xs"
proof -
  assume a: "paginate page limit xs = Inr ys"
  let ?zs = "drop (nat ((page - 1) * limit)) xs"
  from a have "ys = ?zs \<or> ys = take (nat \<bar>limit\<bar>) ?zs"
    by (simp add: paginate_def Let_def split: if_splits)
  moreover have "set ?zs \<subseteq> set xs" by (rule set_drop_subset)
  moreover have "set (take (nat \<bar>limit\<bar>) ?zs) \<subseteq> set ?zs" by (rule set_take_subset)
  ultimately show "set ys \<subseteq> set xs" by blast
qed

lemma found_comment:
  "findCommentById d i = Some a \<Longrightarrow> comment_id a = i \<and> \<not> comment_isDeleted a \<and> a \<in> set (db_comments d)"
  by (auto simp: findCommentById_def find_Some_iff)

lemma deleteComment_state:
  assumes "findCommentById d i = Some a" and "comment_author a = userId \<or> isAdmin"
  shows "deleteComment now i userId isAdmin d =
           (Inr (), incCommentCount (comment_post a) (- 1)
                      (saveComment (a\<lparr>comment_isDeleted := True, comment_deletedAt := Some now\<rparr>) d))"
  using assms by (auto simp: deleteComment_def Let_def)

lemma deleteComment_comments:
  assumes "findCommentById d i = Some a" and "comment_author a = userId \<or> isAdmin"
  shows "db_comments (snd (deleteComment now i userId isAdmin d)) =
           map (\<lambda>x. if comment_id x = i then a\<lparr>comment_isDeleted := True, comment_deletedAt := Some now\<rparr> else x)
             (db_comments d)"
  using found_comment[OF assms(1)] by (simp add: deleteComment_state[OF assms] saveComment_def)

lemma deleted_all_hidden:
  assumes "findCommentById d i = Some a" and "comment_author a = userId \<or> isAdmin"
    and "x \<in> set (db_comments (snd (deleteComment now i userId isAdmin d)))"
    and "comment_id x = i"
  shows "comment_isDeleted x"
proof -
  from assms(3) obtain y where "y \<in> set (db_comments d)"
    and x: "x = (if comment_id y = i then a\<lparr>comment_isDeleted := True, comment_deletedAt := Some now\<rparr> else y)"
    unfolding deleteComment_comments[OF assms(1,2)] by auto
  show ?thesis
  proof (cases "comment_id y = i")
    case True
    with x show ?thesis by simp
  next
    case False
    with x assms(4) show ?thesis by simp
  qed
qed

lemma deleted_not_found:
  assumes "findCommentById d i = Some a" and "comment_author a = userId \<or> isAdmin"
  shows "findCommentById (snd (deleteComment now i userId isAdmin d)) i = None"
  unfolding findCommentById_def find_None_iff
  using deleted_all_hidden[OF assms] by blast

lemma deleted_not_listed:
  assumes "findCommentById d i = Some a" and "comment_author a = userId \<or> isAdmin"
    and "getPostComments postId page limit (snd (deleteComment now i userId isAdmin d)) = Inr (cs, n)"
  shows "i \<notin> comment_id ` set cs"
proof
  let ?d' = "snd (deleteComment now i userId isAdmin d)"
  assume "i \<in> comment_id ` set cs"
  then obtain x where x: "x \<in> set cs" "comment_id x = i" by auto
  from assms(3) obtain q where "paginate page limit
        (sort_key (\<lambda>c. if comment_isHighlighted c then 0 else (1::nat))
           (sort_key (\<lambda>c. - comment_createdAt c) (findComments ?d' q))) = Inr cs"
    by (auto simp: getPostComments_def Let_def split: sum.splits)
  from paginate_subset[OF this] x have "x \<in> set (findComments ?d' q)" by auto
  then have "x \<in> set (db_comments ?d')" "\<not> comment_isDeleted x"
    by (auto simp: findComments_def)
  with deleted_all_hidden[OF assms(1,2) _ x(2)] show False by blast
qed



lemma deleted_others_found:
  assumes "findCommentById d i = Some a" and "comment_author a = userId \<or> isAdmin" and "j \<noteq> i"
  shows "findCommentById (snd (deleteComment now i userId isAdmin d)) j = findCommentById d j"
proof -
  let ?a' = "a\<lparr>comment_isDeleted := True, comment_deletedAt := Some now\<rparr>"
  let ?g = "\<lambda>x. if comment_id x = i then ?a' else x"
  let ?P = "\<lambda>c. comment_id c = j \<and> \<not> comment_isDeleted c"
  have "\<And>x. ?P (?g x) = ?P x \<and> (?P x \<longrightarrow> ?g x = x)"
    using assms(3) by simp
  then have "find ?P (map ?g (db_comments d)) = find ?P (db_comments d)"
    by (intro find_map_unchanged) blast
  then show ?thesis
    unfolding findCommentById_def deleteComment_comments[OF assms(1,2)] .
qed

lemma created_state:
  "db_comments (swallow (commentNotifications ok post newId data d) d) = db_comments d
   \<and> db_users (swallow (commentNotifications ok post newId data d) d) = db_users d
   \<and> db_posts (swallow (commentNotifications ok post newId data d) d) = db_posts d"
proof -
  let ?s = "swallow (commentNotifications ok post newId data d) d"
  have "?s\<lparr>db_notifications := db_notifications d\<rparr> = d"
    using swallow_commentNotifications[where ok=ok and post=post and newId=newId and data=data and d=d]
    by simp
  then have "db_comments (?s\<lparr>db_notifications := db_notifications d\<rparr>) = db_comments d"
    "db_users (?s\<lparr>db_notifications := db_notifications d\<rparr>) = db_users d"
    "db_posts (?s\<lparr>db_notifications := db_notifications d\<rparr>) = db_posts d"
    by simp_all
  then show ?thesis by simp
qed

text \<open>
  C4 (as the code has it). In a collection with unique ids, create the top-level comment
  A with a fresh id, create the reply B to A with another fresh id (both with valid
  content, so that they are created), and let the author of A (or an admin) delete A. Then \<open>getCommentReplies\<close> of A throws "comment not found"
  (status 404), no page of \<open>getPostComments\<close> of the post lists A, and B is still found
  by its id: stored, not deleted, with parent A, level 2 and path A.
\<close>

theorem soft_deleted_parent_thread:
  assumes post: "findPostById d postId = Some post"
    and uA: "userExists d authorA" and uB: "userExists d authorB"
    and fresh: "distinct (map comment_id (db_comments d) @ [idA, idB])"
    and neA: "idA \<noteq> []"
    and vA: "validCommentContent textA" and vB: "validCommentContent textB"
    and dA: "dA = snd (createComment okA t1 idA
                  \<lparr>dto_content = textA, dto_postId = postId, dto_authorId = authorA,
                   dto_parentCommentId = None\<rparr> d)"
    and dB: "dB = snd (createComment okB t2 idB
                  \<lparr>dto_content = textB, dto_postId = postId, dto_authorId = authorB,
                   dto_parentCommentId = Some idA\<rparr> dA)"
    and dC: "dC = snd (deleteComment t3 idA authorA isAdmin dB)"
  shows "getCommentReplies idA page limit dC = Inl (AppError CommentNotFound 404)
       \<and> (\<forall>cs n. getPostComments postId page limit dC = Inr (cs, n) \<longrightarrow> idA \<notin> comment_id ` set cs)
       \<and> (\<exists>b. findCommentById dC idB = Some b \<and> b \<in> set (db_comments dC)
              \<and> comment_parentComment b = Some idA
              \<and> comment_level b = 2 \<and> comment_path b = idA \<and> \<not> comment_isDeleted b)"
proof -
  let ?dataA = "\<lparr>dto_content = textA, dto_postId = postId, dto_authorId = authorA,
                   dto_parentCommentId = None\<rparr>"
  let ?dataB = "\<lparr>dto_content = textB, dto_postId = postId, dto_authorId = authorB,
                   dto_parentCommentId = Some idA\<rparr>"
  let ?cA = "newComment idA t1 textA postId authorA None"
  let ?cB = "(newComment idB t2 textB postId authorB (Some idA))
               \<lparr>comment_level := comment_level ?cA + 1,
                comment_path := (if comment_path ?cA \<noteq> [] then comment_path ?cA @ ''/'' @ idA else idA)\<rparr>"
  have pid: "post_id post = postId"
    using post by (auto simp: findPostById_def find_Some_iff)
  have freshA: "find (\<lambda>c. comment_id c = idA \<and> \<not> comment_isDeleted c) (db_comments d) = None"
    using fresh by (auto simp: find_None_iff)
  have freshB: "find (\<lambda>c. comment_id c = idB \<and> \<not> comment_isDeleted c) (db_comments d) = None"
    using fresh by (auto simp: find_None_iff)
  have ab: "idA \<noteq> idB" using fresh by simp
  \<comment> \<open>after the first create\<close>
  have "\<not> truthy (dto_parentCommentId ?dataA)" by (simp add: truthy_def)
  with createComment_top[where data="?dataA" and d=d and post=post and ok=okA and now=t1 and newId=idA]
    post uA vA
  have csA: "db_comments dA = db_comments d @ [?cA]"
    and usA: "db_users dA = db_users d"
    and psA: "db_posts dA = db_posts (incCommentCount postId 1 d)"
    unfolding dA by (simp_all add: Let_def created_state)
  have postA: "findPostById dA postId = Some (post\<lparr>post_commentCount := post_commentCount post + 1\<rparr>)"
    using post pid findPostById_incCommentCount[of postId 1 d postId]
    by (simp add: findPostById_def psA)
  have uB': "userExists dA authorB" using uB by (simp add: userExists_def usA)
  have fA: "findCommentById dA idA = Some ?cA"
    by (simp add: findCommentById_def csA find_append_list freshA newComment_def)
  \<comment> \<open>after the reply\<close>
  from createComment_reply[where data="?dataB" and d=dA and ok=okB and now=t2 and newId=idB
         and pid=idA and parent="?cA"
         and post="post\<lparr>post_commentCount := post_commentCount post + 1\<rparr>"]
    postA uB' neA fA vB
  have csB: "db_comments dB = db_comments d @ [?cA, ?cB]"
    unfolding dB by (simp add: Let_def created_state csA)
  have fA': "findCommentById dB idA = Some ?cA"
    by (simp add: findCommentById_def csB find_append_list freshA newComment_def)
  have fB: "findCommentById dB idB = Some ?cB"
    using ab by (simp add: findCommentById_def csB find_append_list freshB newComment_def)
  have auth: "comment_author ?cA = authorA \<or> isAdmin" by (simp add: newComment_def)
  \<comment> \<open>after the soft delete\<close>
  have gone: "findCommentById dC idA = None"
    unfolding dC by (rule deleted_not_found[OF fA' auth])
  have r: "getCommentReplies idA page limit dC = Inl (AppError CommentNotFound 404)"
    using gone by (simp add: getCommentReplies_def)
  have l: "\<forall>cs n. getPostComments postId page limit dC = Inr (cs, n) \<longrightarrow> idA \<notin> comment_id ` set cs"
    unfolding dC using deleted_not_listed[OF fA' auth] by blast
  have "findCommentById dC idB = Some ?cB"
    unfolding dC using deleted_others_found[OF fA' auth, of idB] ab fB by simp
  moreover from found_comment[OF this] have "?cB \<in> set (db_comments dC)" by blast
  ultimately have b: "\<exists>b. findCommentById dC idB = Some b \<and> b \<in> set (db_comments dC)
              \<and> comment_parentComment b = Some idA
              \<and> comment_level b = 2 \<and> comment_path b = idA \<and> \<not> comment_isDeleted b"
    by (intro exI[of _ ?cB]) (simp add: newComment_def)
  from r l b show ?thesis by blast
qed

text \<open>
  C4, as the specification states it, fails on the scenario: after \<open>a\<close> is deleted,
  \<open>getCommentReplies\<close> of \<open>a\<close> does not succeed.
\<close>

theorem replies_of_deleted_parent_counterexample:
  "getCommentReplies ''a'' 1 10 dbABdel = Inl (AppError CommentNotFound 404)"
  by (simp add: getCommentReplies_def findCommentById_def dbABdel_eval dbAB_eval
        comment1_def commentA_def commentB_def newComment_def)

theorem soft_deleted_parent_thread_witness:
  "findPostById db1 ''p1'' = Some post1 \<and> userExists db1 ''u2'' \<and> userExists db1 ''u1''
   \<and> distinct (map comment_id (db_comments db1) @ [''a'', ''b''])
   \<and> validCommentContent ''A'' \<and> validCommentContent ''B''
   \<and> getCommentReplies ''a'' 1 10 dbABdel = Inl (AppError CommentNotFound 404)
   \<and> getPostComments ''p1'' 1 10 dbABdel = Inr ([comment1], 2)
   \<and> findCommentById dbABdel ''b'' = Some commentB
   \<and> comment_parentComment commentB = Some ''a''"
proof -
  have post: "findPostById db1 ''p1'' = Some post1"
    by (simp add: findPostById_def db1_def post1_def)
  have uA: "userExists db1 ''u2''" and uB: "userExists db1 ''u1''"
    by (simp_all add: userExists_def db1_def)
  have fresh: "distinct (map comment_id (db_comments db1) @ [''a'', ''b''])"
    by (simp add: db1_def comment1_def)
  have neA: "''a'' \<noteq> []" by simp
  have vA: "validCommentContent ''A''" and vB: "validCommentContent ''B''"
    by (simp_all add: validCommentContent_def jsTrim_def isSpace_def)
  have dA: "dbA = snd (createComment True 1 ''a''
                  \<lparr>dto_content = ''A'', dto_postId = ''p1'', dto_authorId = ''u2'',
                   dto_parentCommentId = None\<rparr> db1)"
    by (simp add: dbA_def topLevelDTO_def)
  have dB: "dbAB = snd (createComment True 2 ''b''
                  \<lparr>dto_content = ''B'', dto_postId = ''p1'', dto_authorId = ''u1'',
                   dto_parentCommentId = Some ''a''\<rparr> dbA)"
    by (simp add: dbAB_def replyDTO_def)
  have dC: "dbABdel = snd (deleteComment 3 ''a'' ''u2'' False dbAB)"
    by (simp add: dbABdel_def)
  have l: "getPostComments ''p1'' 1 10 dbABdel = Inr ([comment1], 2)"
    by (simp add: getPostComments_def findComments_def countComments_def paginate_def Let_def
          dbABdel_eval dbAB_eval comment1_def commentA_def commentB_def newComment_def)
  have b: "findCommentById dbABdel ''b'' = Some commentB"
    by (simp add: findCommentById_def dbABdel_eval dbAB_eval
          comment1_def commentA_def commentB_def newComment_def)
  from soft_deleted_parent_thread [OF post uA uB fresh neA vA vB dA dB dC, of 1 10]
  show ?thesis
    using post uA uB fresh vA vB l b by (simp add: commentB_def newComment_def)
qed

section \<open>The comment counter of a post\<close>

text \<open>
  C1. The counter and the number of approved, not deleted comments part ways: on the
  small database (counter 1, one such comment) user \<open>u2\<close> adds the comment \<open>a\<close>
  (counter 2, two comments) and an admin approves \<open>a\<close>, which is approved already.
  \<open>moderateComment\<close> adds one again: the counter is 3 for two comments.
\<close>

theorem commentCount_drifts_on_repeated_approval:
  "map post_commentCount
     (db_posts (runCommentOps [(1, CreateCommentOp True ''a'' topLevelDTO),
                               (2, ModerateCommentOp ''a'' True)] db1)) = [3]
   \<and> visibleCommentCount
       (runCommentOps [(1, CreateCommentOp True ''a'' topLevelDTO),
                       (2, ModerateCommentOp ''a'' True)] db1) ''p1'' = 2"
proof -
  have "runCommentOps [(1, CreateCommentOp True ''a'' topLevelDTO),
                       (2, ModerateCommentOp ''a'' True)] db1
          = snd (moderateComment ''a'' True dbA)"
    by (simp add: dbA_def)
  also have "\<dots> = dbA\<lparr>db_posts := [post1\<lparr>post_commentCount := 3\<rparr>]\<rparr>"
    by (simp add: moderateComment_def findCommentById_def saveComment_def incCommentCount_def
          Let_def dbA_eval db1_def post1_def comment1_def commentA_def newComment_def)
  finally show ?thesis
    by (simp add: visibleCommentCount_def countComments_def dbA_eval
          comment1_def commentA_def newComment_def)
qed

section \<open>Publish dates\<close>

text \<open>
  C3. At clock value 100, \<open>createPost\<close> with a title, a content and a slug that pass
  validation, status scheduled and publish date 50 succeeds and stores the scheduled
  post; \<open>schedulePost\<close> with the same date on the same clock is rejected with "the date
  must be in the future" (status 400). (The same call without a slug stores nothing,
  but for the missing slug: it fails validation.)
\<close>

theorem createPost_accepts_past_schedule:
  "createPost 100 ''p9'' (scheduledDTO (Some 50)) db1
     = (Inr latePost, db1\<lparr>db_posts := [post1, latePost]\<rparr>)
   \<and> schedulePost 100 ''p1'' ''u1'' 50 db1 = (Inl (AppError ScheduleDateMustBeFuture 400), db1)
   \<and> createPost 100 ''p9'' ((scheduledDTO (Some 50))\<lparr>cp_slug := None\<rparr>) db1
       = (Inl ValidationError, db1)"
  by (simp add: createPost_def newPost_def schedulePost_def userExists_def findCategoryById_def
        findPostById_def postPreSave_def Let_def scheduledDTO_def latePost_def
        validPostData_def jsTrim_def isSpace_def db1_def post1_def cat_root_def)

text \<open>
  C2, as the specification states it, fails: create a draft (with a slug, so that the
  create passes validation), publish it at time 2, unpublish it. The post is a draft that
  still has the publish date 2.
\<close>

theorem publishDate_kept_by_unpublish_counterexample:
  "map post_status
     (db_posts (runPostOps [(1, CreatePostOp ''p1'' draftDTO), (2, PublishPostOp ''p1'' ''u1''),
                            (3, UnpublishPostOp ''p1'' ''u1'')] db0)) = [DRAFT]
   \<and> map post_publishDate
     (db_posts (runPostOps [(1, CreatePostOp ''p1'' draftDTO), (2, PublishPostOp ''p1'' ''u1''),
                            (3, UnpublishPostOp ''p1'' ''u1'')] db0)) = [Some 2]"
  by (simp add: createPost_def newPost_def publishPost_def unpublishPost_def savePost_def postPreSave_def
        userExists_def findCategoryById_def findPostById_def Let_def draftDTO_def
        validPostData_def jsTrim_def isSpace_def db0_def db1_def cat_root_def)


lemma found_post:
  "findPostById d i = Some p \<Longrightarrow> post_id p = i \<and> p \<in> set (db_posts d)"
  by (auto simp: findPostById_def find_Some_iff)

lemma replace_keeps:
  assumes "\<forall>p\<in>set xs. I p" and "I q"
  shows "\<forall>p\<in>set (map (\<lambda>x. if f x = i then q else x) xs). I p"
  using assms by (induction xs) simp_all

lemma map_keeps:
  assumes "\<forall>p\<in>set xs. I p" and "\<And>p. I p \<Longrightarrow> I (g p)"
  shows "\<forall>p\<in>set (map g xs). I p"
  using assms by (induction xs) simp_all

lemma postPreSave_dated:
  "datedIfLive p \<Longrightarrow> datedIfLive (postPreSave now p)"
  by (simp add: datedIfLive_def postPreSave_def)

lemma savePost_dated:
  assumes "\<forall>p\<in>set (db_posts d). datedIfLive p" and "datedIfLive q"
  shows "\<forall>p\<in>set (db_posts (savePost now q d)). datedIfLive p"
  unfolding savePost_def using replace_keeps[OF assms(1) postPreSave_dated[OF assms(2)]]
  by simp

lemma newPost_dated:
  assumes "cp_status data = Some SCHEDULED \<longrightarrow> cp_publishDate data \<noteq> None"
  shows "datedIfLive (newPost now newId data)"
proof (cases "cp_status data")
  case None
  then show ?thesis by (simp add: newPost_def datedIfLive_def postPreSave_def)
next
  case (Some s)
  with assms show ?thesis
    by (cases s) (auto simp: newPost_def datedIfLive_def postPreSave_def)
qed

lemma createPost_dated:
  assumes inv: "\<forall>p\<in>set (db_posts d). datedIfLive p"
    and dated: "cp_status data = Some SCHEDULED \<longrightarrow> cp_publishDate data \<noteq> None"
  shows "\<forall>p\<in>set (db_posts (snd (createPost now newId data d))). datedIfLive p"
  using inv newPost_dated[OF dated, of now newId]
  by (simp add: createPost_def Let_def)

lemma applyUpdateData_status:
  "post_status (applyUpdateData now post data)
     = (case up_status data of None \<Rightarrow> post_status post | Some s \<Rightarrow> s)"
  by (simp add: applyUpdateData_def Let_def split: option.splits)

lemma applyUpdateData_publishDate:
  "post_publishDate (applyUpdateData now post data)
     = (case up_status data of
          None \<Rightarrow> post_publishDate post
        | Some s \<Rightarrow> if s = PUBLISHED \<and> post_status post \<noteq> PUBLISHED then Some now
                    else if s = SCHEDULED
                    then Some (case up_publishDate data of None \<Rightarrow> now | Some t \<Rightarrow> t)
                    else post_publishDate post)"
  by (simp add: applyUpdateData_def Let_def split: option.splits)

lemma applyUpdateData_dated:
  assumes "datedIfLive post"
  shows "datedIfLive (applyUpdateData now post data)"
proof (cases "up_status data")
  case None
  with assms show ?thesis
    by (simp add: datedIfLive_def applyUpdateData_status applyUpdateData_publishDate)
next
  case (Some s)
  with assms show ?thesis
    by (cases s)
       (auto simp: datedIfLive_def applyUpdateData_status applyUpdateData_publishDate)
qed

lemma updatePost_dated:
  assumes inv: "\<forall>p\<in>set (db_posts d). datedIfLive p"
  shows "\<forall>p\<in>set (db_posts (snd (updatePost now postId authorId data d))). datedIfLive p"
proof (cases "findPostById d postId")
  case None
  with inv show ?thesis by (simp add: updatePost_def)
next
  case (Some post)
  with inv have "datedIfLive post" using found_post by blast
  then have "datedIfLive (applyUpdateData now post data)" by (rule applyUpdateData_dated)
  from replace_keeps[OF inv this, of post_id postId] Some inv show ?thesis
    by (simp add: updatePost_def Let_def)
qed

lemma sweep_dated:
  assumes inv: "\<forall>p\<in>set (db_posts d). datedIfLive p"
  shows "\<forall>p\<in>set (db_posts (snd (publishScheduledPosts now d))). datedIfLive p"
proof -
  have "\<And>p. datedIfLive p \<Longrightarrow> datedIfLive (if due now p then p\<lparr>post_status := PUBLISHED\<rparr> else p)"
    by (simp add: datedIfLive_def due_def split: option.splits)
  from map_keeps[OF inv this] show ?thesis by (simp add: publishScheduledPosts_def)
qed

lemma applyPostOp_dated:
  assumes inv: "\<forall>p\<in>set (db_posts d). datedIfLive p" and dc: "datedCreate c"
  shows "\<forall>p\<in>set (db_posts (applyPostOp now c d)). datedIfLive p"
proof (cases c)
  case (CreatePostOp newId data)
  with dc createPost_dated[OF inv, of data now newId] show ?thesis by simp
next
  case (UpdatePostOp postId authorId data)
  with updatePost_dated[OF inv] show ?thesis by simp
next
  case (PublishPostOp postId authorId)
  show ?thesis
  proof (cases "findPostById d postId")
    case None
    with PublishPostOp inv show ?thesis by (simp add: publishPost_def)
  next
    case (Some post)
    have "datedIfLive (postPreSave now (post\<lparr>post_status := PUBLISHED, post_publishDate := Some now\<rparr>))"
      by (simp add: datedIfLive_def postPreSave_def)
    from savePost_dated[OF inv this] PublishPostOp Some inv show ?thesis
      by (simp add: publishPost_def Let_def)
  qed
next
  case (UnpublishPostOp postId authorId)
  show ?thesis
  proof (cases "findPostById d postId")
    case None
    with UnpublishPostOp inv show ?thesis by (simp add: unpublishPost_def)
  next
    case (Some post)
    have "datedIfLive (postPreSave now (post\<lparr>post_status := DRAFT\<rparr>))"
      by (simp add: datedIfLive_def postPreSave_def)
    from savePost_dated[OF inv this] UnpublishPostOp Some inv show ?thesis
      by (simp add: unpublishPost_def Let_def)
  qed
next
  case (SchedulePostOp postId authorId publishDate)
  show ?thesis
  proof (cases "findPostById d postId")
    case None
    with SchedulePostOp inv show ?thesis by (simp add: schedulePost_def)
  next
    case (Some post)
    have "datedIfLive (postPreSave now (post\<lparr>post_status := SCHEDULED, post_publishDate := Some publishDate\<rparr>))"
      by (simp add: datedIfLive_def postPreSave_def)
    from savePost_dated[OF inv this] SchedulePostOp Some inv show ?thesis
      by (simp add: schedulePost_def Let_def)
  qed
next
  case SweepOp
  with sweep_dated[OF inv] show ?thesis by simp
qed

text \<open>
  C2 (as the code has it). Start from posts that have a publish date whenever they are
  published or scheduled (no posts at all, for one) and run any sequence of create,
  update, publish, unpublish, schedule and sweep calls in which every create that asks
  for a scheduled post names a publish date. Then every post that is published or
  scheduled has a publish date.
\<close>

theorem live_post_has_publishDate:
  assumes "\<forall>p\<in>set (db_posts d). datedIfLive p"
    and "\<forall>c\<in>set (map snd ops). datedCreate c"
  shows "\<forall>p\<in>set (db_posts (runPostOps ops d)).
           (post_status p = PUBLISHED \<or> post_status p = SCHEDULED) \<longrightarrow> post_publishDate p \<noteq> None"
proof -
  have "\<forall>p\<in>set (db_posts (runPostOps ops d)). datedIfLive p"
    using assms
  proof (induction ops arbitrary: d)
    case Nil
    then show ?case by simp
  next
    case (Cons a ops)
    obtain now c where a: "a = (now, c)" by (cases a)
    from Cons.prems a have "datedCreate c" by simp
    from applyPostOp_dated[OF Cons.prems(1) this, of now]
    have "\<forall>p\<in>set (db_posts (runPostOps ops (applyPostOp now c d))). datedIfLive p"
      using Cons.prems(2) by (intro Cons.IH) simp_all
    with a show ?case by simp
  qed
  then show ?thesis by (auto simp: datedIfLive_def)
qed

theorem live_post_has_publishDate_witness:
  "db_posts db0 = []
   \<and> map post_status (db_posts (runPostOps [(1, CreatePostOp ''p9'' (scheduledDTO (Some 50))),
                         (60, SweepOp)] db0)) = [PUBLISHED]
   \<and> map post_publishDate (db_posts (runPostOps [(1, CreatePostOp ''p9'' (scheduledDTO (Some 50))),
                         (60, SweepOp)] db0)) = [Some 50]"
proof -
  have i: "\<forall>p\<in>set (db_posts db0). datedIfLive p" by (simp add: db0_def)
  have c: "\<forall>c\<in>set (map snd [(1, CreatePostOp ''p9'' (scheduledDTO (Some 50))),
                         (60::int, SweepOp)]). datedCreate c"
    by (simp add: scheduledDTO_def)
  have e: "db_posts (runPostOps [(1, CreatePostOp ''p9'' (scheduledDTO (Some 50))),
                         (60, SweepOp)] db0) = [latePost\<lparr>post_status := PUBLISHED\<rparr>]"
    by (simp add: createPost_def newPost_def publishScheduledPosts_def due_def postPreSave_def
          userExists_def findCategoryById_def Let_def scheduledDTO_def latePost_def
          validPostData_def jsTrim_def isSpace_def db0_def db1_def cat_root_def)
  from live_post_has_publishDate [OF i c]
  show ?thesis using e by (simp add: latePost_def db0_def)
qed

section \<open>Invariants of the comment collection\<close>

text \<open>
  Along any run of comment operations that hands fresh ids to its create calls, the ids
  of the stored comments stay unique and every counter of likes stays equal to the length
  of its list of likes.
\<close>

lemma saveComment_keeps:
  assumes "\<forall>x\<in>set (db_comments d). I x" and "I c"
  shows "\<forall>x\<in>set (db_comments (saveComment c d)). I x"
  unfolding saveComment_def using replace_keeps[OF assms] by simp

lemma createComment_likesCounted:
  assumes inv: "\<forall>x\<in>set (db_comments d). likesCounted x"
  shows "\<forall>x\<in>set (db_comments (snd (createComment ok now newId data d))). likesCounted x"
proof -
  from createComment_comments[of ok now newId data d]
  consider "db_comments (snd (createComment ok now newId data d)) = db_comments d"
    | c where "comment_likes c = []" "comment_likeCount c = 0"
        "db_comments (snd (createComment ok now newId data d)) = db_comments d @ [c]"
    by blast
  then show ?thesis
  proof cases
    case 1
    with inv show ?thesis by simp
  next
    case (2 c)
    then have "likesCounted c" by (simp add: likesCounted_def)
    with inv 2(3) show ?thesis by simp
  qed
qed

lemma applyCommentOp_likesCounted:
  assumes inv: "\<forall>x\<in>set (db_comments d). likesCounted x"
  shows "\<forall>x\<in>set (db_comments (applyCommentOp now c d)). likesCounted x"
proof (cases c)
  case (CreateCommentOp ok newId data)
  with createComment_likesCounted[OF inv] show ?thesis by simp
next
  case (UpdateCommentOp commentId authorId content)
  show ?thesis
  proof (cases "findCommentById d commentId")
    case None
    with UpdateCommentOp inv show ?thesis by (simp add: updateComment_def)
  next
    case (Some comment)
    with inv found_comment have "likesCounted comment" by blast
    then have "likesCounted (comment\<lparr>comment_content := jsTrim content, comment_isEdited := True\<rparr>)"
      by (simp add: likesCounted_def)
    from saveComment_keeps[OF inv this] UpdateCommentOp Some inv show ?thesis
      by (simp add: updateComment_def Let_def)
  qed
next
  case (DeleteCommentOp commentId userId isAdmin)
  show ?thesis
  proof (cases "findCommentById d commentId")
    case None
    with DeleteCommentOp inv show ?thesis by (simp add: deleteComment_def)
  next
    case (Some comment)
    with inv found_comment have "likesCounted comment" by blast
    then have "likesCounted (comment\<lparr>comment_isDeleted := True, comment_deletedAt := Some now\<rparr>)"
      by (simp add: likesCounted_def)
    from saveComment_keeps[OF inv this] DeleteCommentOp Some inv show ?thesis
      by (simp add: deleteComment_def Let_def)
  qed
next
  case (LikeCommentOp ok commentId userId)
  show ?thesis
  proof (cases "findCommentById d commentId")
    case None
    with LikeCommentOp inv show ?thesis by (simp add: likeComment_def)
  next
    case (Some comment)
    have "likesCounted (comment\<lparr>comment_likes := comment_likes comment @ [userId],
              comment_likeCount := int (length (comment_likes comment @ [userId]))\<rparr>)"
      by (simp add: likesCounted_def)
    from saveComment_keeps[OF inv this] LikeCommentOp Some inv show ?thesis
      by (simp add: likeComment_def Let_def swallow_like_comments)
  qed
next
  case (UnlikeCommentOp commentId userId)
  show ?thesis
  proof (cases "findCommentById d commentId")
    case None
    with UnlikeCommentOp inv show ?thesis by (simp add: unlikeComment_def)
  next
    case (Some comment)
    have "likesCounted (comment\<lparr>comment_likes := filter (\<lambda>i. i \<noteq> userId) (comment_likes comment),
              comment_likeCount := int (length (filter (\<lambda>i. i \<noteq> userId) (comment_likes comment)))\<rparr>)"
      by (simp add: likesCounted_def)
    from saveComment_keeps[OF inv this] UnlikeCommentOp Some inv show ?thesis
      by (simp add: unlikeComment_def Let_def)
  qed
next
  case (ModerateCommentOp commentId isApproved)
  show ?thesis
  proof (cases "findCommentById d commentId")
    case None
    with ModerateCommentOp inv show ?thesis by (simp add: moderateComment_def)
  next
    case (Some comment)
    with inv found_comment have "likesCounted comment" by blast
    then have "likesCounted (comment\<lparr>comment_isApproved := isApproved\<rparr>)"
      by (simp add: likesCounted_def)
    from saveComment_keeps[OF inv this] ModerateCommentOp Some inv show ?thesis
      by (simp add: moderateComment_def Let_def)
  qed
next
  case (HighlightCommentOp commentId isHighlighted)
  show ?thesis
  proof (cases "findCommentById d commentId")
    case None
    with HighlightCommentOp inv show ?thesis by (simp add: highlightComment_def)
  next
    case (Some comment)
    with inv found_comment have "likesCounted comment" by blast
    then have "likesCounted (comment\<lparr>comment_isHighlighted := isHighlighted\<rparr>)"
      by (simp add: likesCounted_def)
    from saveComment_keeps[OF inv this] HighlightCommentOp Some inv show ?thesis
      by (simp add: highlightComment_def Let_def)
  qed
qed

lemma applyCommentOp_fresh:
  assumes "distinct (map comment_id (db_comments d) @ newIds ((now, c) # ops))"
  shows "distinct (map comment_id (db_comments (applyCommentOp now c d)) @ newIds ops)"
proof -
  let ?d' = "applyCommentOp now c d"
  from assms have dist: "distinct (map comment_id (db_comments d))" by simp
  from applyCommentOp_positions[OF dist, of now c]
  consider (same) "map treePosition (db_comments ?d') = map treePosition (db_comments d)"
    | (grown) x where "comment_id x \<in> set (newIds [(now, c)])"
        "db_comments ?d' = db_comments d @ [x]"
    by blast
  then show ?thesis
  proof cases
    case same
    then have ids: "map comment_id (db_comments ?d') = map comment_id (db_comments d)"
      by (simp add: ids_of_positions)
    show ?thesis using assms newIds_tail[of ops now c] unfolding ids by auto
  next
    case grown
    then have "newIds ((now, c) # ops) = comment_id x # newIds ops"
      using newIds_single by simp
    with assms grown(2) show ?thesis by simp
  qed
qed

lemma runCommentOps_invariants:
  assumes "distinct (map comment_id (db_comments d) @ newIds ops)"
    and "\<forall>x\<in>set (db_comments d). likesCounted x"
  shows "distinct (map comment_id (db_comments (runCommentOps ops d)))
         \<and> (\<forall>x\<in>set (db_comments (runCommentOps ops d)). likesCounted x)"
  using assms
proof (induction ops arbitrary: d)
  case Nil
  then show ?case by simp
next
  case (Cons a ops)
  obtain now c where a: "a = (now, c)" by (cases a)
  from Cons.prems(1) have "distinct (map comment_id (db_comments (applyCommentOp now c d)) @ newIds ops)"
    unfolding a by (rule applyCommentOp_fresh)
  from Cons.IH[OF this applyCommentOp_likesCounted[OF Cons.prems(2)]] a show ?case by simp
qed

end
